theory Spec2Isabelle
  imports
    Complex_Main
    "HOL-Library.Multiset"
    "HOL-Library.Char_ord"
    "HOL-Library.List_Lexorder"
begin

section \<open>Order Overview Dashboard: data model\<close>

text \<open>
  The dashboard is a React client (\<^verbatim>\<open>src/app/page.tsx\<close>, the \<^verbatim>\<open>OrderTable\<close> and
  \<^verbatim>\<open>PresetManager\<close> components, and the type files). The embedding keeps the names of
  the source. Conventions:
  \<^item> a JavaScript string is a \<^typ>\<open>string\<close>; one \<^typ>\<open>char\<close> stands for one code unit, and
    \<open><\<close> on strings is the lexicographic order on code units (\<^verbatim>\<open>HOL-Library.List_Lexorder\<close>);
  \<^item> the numbers of an order (\<^verbatim>\<open>oid\<close>, \<^verbatim>\<open>daysSinceOrder\<close>) are integers, \<^typ>\<open>int\<close>, as
    the data has them; what \<^verbatim>\<open>parseInt\<close> returns is a double, and has a type of its own
    below, with \<^verbatim>\<open>NaN\<close> and the infinities;
  \<^item> the values are trusted to have their TypeScript types, as the source trusts them
    (\<^verbatim>\<open>orders as Order[]\<close>, \<^verbatim>\<open>const all: Preset[] = JSON.parse(...)\<close>).
\<close>

text \<open>\<^verbatim>\<open>interface Order\<close> of \<^verbatim>\<open>src/types/orders.ts\<close>.\<close>

record Order =
  oid :: int
  statusLeft :: string
  statusRight :: string
  type :: string
  lock :: string
  customer :: string
  daysSinceOrder :: int
  model :: string
  designer :: string

text \<open>
  \<^verbatim>\<open>interface FilterState\<close> of \<^verbatim>\<open>types/filters.ts\<close>; \<^verbatim>\<open>OID?: string[]\<close> is optional.
  The field names shared with \<^typ>\<open>Order\<close> are told apart by qualification
  (\<open>Order.lock\<close>, \<open>FilterState.lock\<close>).
\<close>

record FilterState =
  OID :: "string list option"
  status :: "string list"
  type :: "string list"
  lock :: "string list"
  customer :: "string list"
  model :: "string list"
  designer :: "string list"
  days :: "string list"

text \<open>\<^verbatim>\<open>keyof FilterState\<close>: the property names of a filter state.\<close>

datatype FilterKey =
  K_OID | K_status | K_type | K_lock | K_customer | K_model | K_designer | K_days

text \<open>\<^verbatim>\<open>const defaultFilterState\<close> (page.tsx, lines 18 to 26): no \<^verbatim>\<open>OID\<close> property.\<close>

definition defaultFilterState :: FilterState where
  "defaultFilterState =
     \<lparr>OID = None, status = [], type = [], lock = [], customer = [],
      model = [], designer = [], days = []\<rparr>"

text \<open>
  \<^verbatim>\<open>Object.entries(filters)\<close>: the own properties of the object with their values. An
  absent \<^verbatim>\<open>OID\<close> gives no entry.
\<close>

definition Object_entries :: "FilterState \<Rightarrow> (FilterKey \<times> string list) list" where
  "Object_entries f =
     (case OID f of None \<Rightarrow> [] | Some v \<Rightarrow> [(K_OID, v)]) @
     [(K_status, status f), (K_type, FilterState.type f), (K_lock, FilterState.lock f),
      (K_customer, FilterState.customer f), (K_model, FilterState.model f),
      (K_designer, FilterState.designer f), (K_days, days f)]"

text \<open>
  \<^verbatim>\<open>order[key as keyof Order]\<close> for a key of a filter state: an order has the properties
  \<^verbatim>\<open>type\<close>, \<^verbatim>\<open>lock\<close>, \<^verbatim>\<open>customer\<close>, \<^verbatim>\<open>model\<close> and \<^verbatim>\<open>designer\<close>; it has no property named
  \<^verbatim>\<open>OID\<close>, \<^verbatim>\<open>status\<close> or \<^verbatim>\<open>days\<close>, where the lookup is \<^verbatim>\<open>undefined\<close> (\<^term>\<open>None\<close>).
\<close>

fun order_at :: "Order \<Rightarrow> FilterKey \<Rightarrow> string option" where
  "order_at order K_type = Some (Order.type order)"
| "order_at order K_lock = Some (Order.lock order)"
| "order_at order K_customer = Some (Order.customer order)"
| "order_at order K_model = Some (Order.model order)"
| "order_at order K_designer = Some (Order.designer order)"
| "order_at order K_OID = None"
| "order_at order K_status = None"
| "order_at order K_days = None"

section \<open>Filter evaluator (page.tsx, lines 110 to 132)\<close>

text \<open>
  What \<^verbatim>\<open>parseInt\<close> returns: \<^verbatim>\<open>NaN\<close>, an integer that is a double, or an infinity.
\<close>

datatype Number = NaN | Num int | PlusInfinity | MinusInfinity

text \<open>
  The double nearest to an integer, ties to the even significand (the Number value of
  ECMAScript). A double has a significand of 53 bits: an integer below \<open>2\<^sup>5\<^sup>3\<close> in
  magnitude is a double; a larger one lies between two doubles that are \<open>u\<close> apart, \<open>u\<close>
  the power of two that brings the quotient below \<open>2\<^sup>5\<^sup>3\<close>; from \<open>2\<^sup>1\<^sup>0\<^sup>2\<^sup>4\<close> on the
  rounded value is an infinity.
\<close>

function double_ulp :: "int \<Rightarrow> int \<Rightarrow> int" where
  "double_ulp a u = (if a div u < 2 ^ 53 then u else double_ulp a (2 * u))"
  by pat_completeness auto
termination
proof (relation "measure (\<lambda>(a, u). nat (a div u))")
  show "wf (measure (\<lambda>(a, u). nat (a div u)))" by simp
next
  fix a u :: int
  assume "\<not> a div u < 2 ^ 53"
  then have big: "(2::int) ^ 53 \<le> a div u" by simp
  have "a div (2 * u) = (a div u) div 2"
    by (simp add: mult.commute zdiv_zmult2_eq)
  with big show "((a, 2 * u), (a, u)) \<in> measure (\<lambda>(a, u). nat (a div u))"
    by simp
qed

declare double_ulp.simps [simp del]

definition to_double :: "int \<Rightarrow> Number" where
  "to_double n =
     (let a = \<bar>n\<bar>;
          u = double_ulp a 1;
          q = a div u;
          r = a mod u;
          q' = (if 2 * r < u then q
                else if u < 2 * r then q + 1
                else if even q then q else q + 1);
          m = q' * u
      in if 2 ^ 1024 \<le> m then (if n < 0 then MinusInfinity else PlusInfinity)
         else Num (sgn n * m))"

text \<open>
  \<^verbatim>\<open>parseInt(s, 10)\<close> as ECMAScript defines it: leading white space is skipped, one sign
  is read, then the longest run of decimal digits; what follows the digits is ignored, and
  no digit at all gives \<^verbatim>\<open>NaN\<close>. The white space of the code units below 256 is listed.
  \<open>decimal\<close> is the integer that the digits write (\<^verbatim>\<open>mathInt\<close> in the standard), and the
  result is its double. For a run of more than 20 significant digits the standard also
  allows an implementation to read the digits after the 20th as zeros; the model takes the
  digits as they are.
\<close>

definition StrWhiteSpaceChar :: "char \<Rightarrow> bool" where
  "StrWhiteSpaceChar c \<longleftrightarrow> (of_char c :: nat) \<in> {9, 10, 11, 12, 13, 32, 160}"

definition is_digit :: "char \<Rightarrow> bool" where
  "is_digit c \<longleftrightarrow> 48 \<le> (of_char c :: nat) \<and> (of_char c :: nat) \<le> 57"

definition digit_value :: "char \<Rightarrow> int" where
  "digit_value c = int (of_char c) - 48"

definition decimal :: "string \<Rightarrow> int" where
  "decimal ds = foldl (\<lambda>a c. 10 * a + digit_value c) 0 ds"

definition parseInt10 :: "string \<Rightarrow> Number" where
  "parseInt10 s =
     (let S = dropWhile StrWhiteSpaceChar s;
          sign = (case S of c # _ \<Rightarrow> if c = CHR ''-'' then - 1 else 1 | [] \<Rightarrow> 1);
          S' = (case S of c # r \<Rightarrow> if c = CHR ''-'' \<or> c = CHR ''+'' then r else S | [] \<Rightarrow> S);
          Z = takeWhile is_digit S'
      in if Z = [] then NaN else to_double (sign * decimal Z))"

text \<open>
  \<^verbatim>\<open>parseInt(f.replace("<", ""), 10)\<close>: \<^verbatim>\<open>replace\<close> with a string pattern removes the first
  occurrence of \<^verbatim>\<open><\<close>, wherever it is; that is \<^const>\<open>remove1\<close> on the code units.
\<close>

definition threshold :: "string \<Rightarrow> Number" where
  "threshold f = parseInt10 (remove1 (CHR ''<'') f)"

text \<open>
  \<^verbatim>\<open>value < threshold\<close> for the number of an order: a comparison with \<^verbatim>\<open>NaN\<close> is false,
  and every number of an order is below \<^verbatim>\<open>Infinity\<close>.
\<close>

fun less_Number :: "int \<Rightarrow> Number \<Rightarrow> bool" where
  "less_Number v NaN = False"
| "less_Number v (Num t) = (v < t)"
| "less_Number v PlusInfinity = True"
| "less_Number v MinusInfinity = False"

text \<open>\<^verbatim>\<open>matchDays\<close>.\<close>

definition matchDays :: "int \<Rightarrow> string list \<Rightarrow> bool" where
  "matchDays v fs =
     (if length fs = 0 then True
      else list_ex (\<lambda>f. less_Number v (threshold f)) fs)"

text \<open>
  The callback of \<^verbatim>\<open>every\<close> (lines 120 to 130). An array is truthy, so \<^verbatim>\<open>!selected\<close> is
  false on every entry and the first test is on the length.
\<close>

fun match_entry :: "Order \<Rightarrow> FilterKey \<times> string list \<Rightarrow> bool" where
  "match_entry order (key, selected) =
     (if length selected = 0 then True
      else if key = K_days then matchDays (daysSinceOrder order) selected
      else if key = K_status then
        statusLeft order \<in> set selected \<or> statusRight order \<in> set selected
      else (case order_at order key of None \<Rightarrow> False | Some v \<Rightarrow> v \<in> set selected))"

text \<open>The callback of \<^verbatim>\<open>allOrders.filter\<close>: the filter evaluator.\<close>

definition matches :: "Order \<Rightarrow> FilterState \<Rightarrow> bool" where
  "matches order f = list_all (match_entry order) (Object_entries f)"

definition filteredOrders :: "Order list \<Rightarrow> FilterState \<Rightarrow> Order list" where
  "filteredOrders allOrders f = filter (\<lambda>order. matches order f) allOrders"

text \<open>
  The filter evaluator as the specification words it, for comparison: a label is read by
  stripping a leading \<^verbatim>\<open><\<close> and converting the remainder to an integer; a remainder that
  is not a number gives no threshold, and the label matches nothing.
\<close>

definition spec_threshold :: "string \<Rightarrow> int option" where
  "spec_threshold label =
     (let r = (case label of c # rest \<Rightarrow> if c = CHR ''<'' then rest else label | [] \<Rightarrow> [])
      in if r \<noteq> [] \<and> list_all is_digit r then Some (decimal r) else None)"

definition spec_matches :: "Order \<Rightarrow> FilterState \<Rightarrow> bool" where
  "spec_matches order f \<longleftrightarrow>
     (status f = [] \<or> statusLeft order \<in> set (status f) \<or> statusRight order \<in> set (status f)) \<and>
     (days f = [] \<or>
        list_ex (\<lambda>l. case spec_threshold l of None \<Rightarrow> False
                                            | Some t \<Rightarrow> daysSinceOrder order < t) (days f)) \<and>
     (FilterState.type f = [] \<or> Order.type order \<in> set (FilterState.type f)) \<and>
     (FilterState.lock f = [] \<or> Order.lock order \<in> set (FilterState.lock f)) \<and>
     (FilterState.customer f = [] \<or> Order.customer order \<in> set (FilterState.customer f)) \<and>
     (FilterState.model f = [] \<or> Order.model order \<in> set (FilterState.model f)) \<and>
     (FilterState.designer f = [] \<or> Order.designer order \<in> set (FilterState.designer f))"

text \<open>Orders used as concrete inputs below.\<close>

definition order10 :: Order where
  "order10 =
     \<lparr>oid = 1, statusLeft = ''Printing'', statusRight = ''QC'', type = ''Sample'',
      lock = '''', customer = ''Acme'', daysSinceOrder = 10, model = ''M1'',
      designer = ''Dana''\<rparr>"

definition order_unlisted :: Order where
  "order_unlisted =
     \<lparr>oid = 2, statusLeft = ''Shipped'', statusRight = ''Delivered'', type = ''Order'',
      lock = ''L1'', customer = ''Bolt'', daysSinceOrder = 3, model = ''M2'',
      designer = ''Eli''\<rparr>"

definition order_open :: Order where
  "order_open =
     \<lparr>oid = 3, statusLeft = ''Open Order'', statusRight = ''Open Order'', type = ''B2C'',
      lock = '''', customer = ''Acme'', daysSinceOrder = 10, model = ''M1'',
      designer = ''Dana''\<rparr>"

definition sample_orders :: "Order list" where
  "sample_orders = [order10, order_unlisted, order_open]"

section \<open>Sort comparator and query pipeline (page.tsx, lines 134 to 162)\<close>

definition statusPriority :: "string list" where
  "statusPriority =
     [''Open Order'', ''Printing'', ''Drying'', ''QC'', ''Ready for Packaging'', ''Delivered'']"

text \<open>\<^verbatim>\<open>Array.prototype.indexOf\<close>: the first index of the value, \<open>-1\<close> when it is absent.\<close>

fun indexOf :: "'a list \<Rightarrow> 'a \<Rightarrow> int" where
  "indexOf [] x = - 1"
| "indexOf (y # ys) x =
     (if y = x then 0 else (let i = indexOf ys x in if i < 0 then - 1 else i + 1))"

text \<open>Lines 158 to 160: the sign of the comparison, inverted unless the direction is \<^verbatim>\<open>"asc"\<close>.\<close>

definition three_way :: "'a::linorder \<Rightarrow> 'a \<Rightarrow> string \<Rightarrow> int" where
  "three_way aValue bValue sortDirection =
     (if aValue < bValue then (if sortDirection = ''asc'' then - 1 else 1)
      else if aValue > bValue then (if sortDirection = ''asc'' then 1 else - 1)
      else 0)"

text \<open>
  The comparator given to \<^verbatim>\<open>sort\<close>. The dynamic lookup \<^verbatim>\<open>a[sortKey]\<close> is written out per
  property of an order: \<^verbatim>\<open>oid\<close> compares as a number, the seven string properties as
  strings; for any other key both lookups are \<^verbatim>\<open>undefined\<close>, neither \<^verbatim>\<open><\<close> nor \<^verbatim>\<open>>\<close> holds
  and the result is 0.
\<close>

definition compareFn :: "string \<Rightarrow> string \<Rightarrow> Order \<Rightarrow> Order \<Rightarrow> int" where
  "compareFn sortKey sortDirection a b =
     (if sortKey = ''daysSinceOrder'' then
        three_way (daysSinceOrder a) (daysSinceOrder b) sortDirection
      else if sortKey = ''status'' then
        three_way (indexOf statusPriority (statusLeft a))
                  (indexOf statusPriority (statusLeft b)) sortDirection
      else if sortKey = ''oid'' then three_way (oid a) (oid b) sortDirection
      else if sortKey = ''statusLeft'' then
        three_way (statusLeft a) (statusLeft b) sortDirection
      else if sortKey = ''statusRight'' then
        three_way (statusRight a) (statusRight b) sortDirection
      else if sortKey = ''type'' then three_way (Order.type a) (Order.type b) sortDirection
      else if sortKey = ''lock'' then three_way (Order.lock a) (Order.lock b) sortDirection
      else if sortKey = ''customer'' then
        three_way (Order.customer a) (Order.customer b) sortDirection
      else if sortKey = ''model'' then three_way (Order.model a) (Order.model b) sortDirection
      else if sortKey = ''designer'' then
        three_way (Order.designer a) (Order.designer b) sortDirection
      else 0)"

text \<open>
  \<^verbatim>\<open>[...filteredOrders].sort(cmp)\<close>. ECMAScript (2019 and later) requires
  \<^verbatim>\<open>Array.prototype.sort\<close> to be stable, and leaves the algorithm open; the model is the
  stable insertion sort: an element is placed before the first element of the sorted rest
  that the comparator does not put before it.
\<close>

fun sort_insert :: "('a \<Rightarrow> 'a \<Rightarrow> int) \<Rightarrow> 'a \<Rightarrow> 'a list \<Rightarrow> 'a list" where
  "sort_insert cmp x [] = [x]"
| "sort_insert cmp x (y # ys) =
     (if cmp x y \<le> 0 then x # y # ys else y # sort_insert cmp x ys)"

fun Array_sort :: "('a \<Rightarrow> 'a \<Rightarrow> int) \<Rightarrow> 'a list \<Rightarrow> 'a list" where
  "Array_sort cmp [] = []"
| "Array_sort cmp (x # xs) = sort_insert cmp x (Array_sort cmp xs)"

definition sortedAndFilteredOrders ::
  "Order list \<Rightarrow> FilterState \<Rightarrow> string \<Rightarrow> string \<Rightarrow> Order list" where
  "sortedAndFilteredOrders allOrders f sortKey sortDirection =
     Array_sort (compareFn sortKey sortDirection) (filteredOrders allOrders f)"

section \<open>Paginator (OrderTable, lines 64 to 71)\<close>

definition rowsPerPage :: int where
  "rowsPerPage = 10"

text \<open>\<^verbatim>\<open>Math.ceil(data.length / rowsPerPage)\<close>.\<close>

definition pages :: "'a list \<Rightarrow> int" where
  "pages data = \<lceil>real (length data) / real_of_int rowsPerPage\<rceil>"

text \<open>
  \<^verbatim>\<open>Array.prototype.slice(start, end)\<close>: a negative bound counts from the end, and both
  bounds are clamped to the array.
\<close>

definition slice :: "'a list \<Rightarrow> int \<Rightarrow> int \<Rightarrow> 'a list" where
  "slice xs start end' =
     (let len = int (length xs);
          k = (if start < 0 then max (len + start) 0 else min start len);
          final = (if end' < 0 then max (len + end') 0 else min end' len)
      in take (nat (final - k)) (drop (nat k) xs))"

definition paginatedData :: "'a list \<Rightarrow> int \<Rightarrow> 'a list" where
  "paginatedData data page = slice data ((page - 1) * rowsPerPage) (page * rowsPerPage)"

section \<open>Unique values (page.tsx, lines 87 to 108; OrderTable, lines 93 to 97)\<close>

text \<open>
  \<^verbatim>\<open>Array.from(new Set(xs))\<close>: a \<^verbatim>\<open>Set\<close> keeps its elements in insertion order, and adding
  an element it already has changes nothing.
\<close>

definition Set_add :: "'a list \<Rightarrow> 'a \<Rightarrow> 'a list" where
  "Set_add s x = (if x \<in> set s then s else s @ [x])"

definition new_Set :: "'a list \<Rightarrow> 'a list" where
  "new_Set xs = foldl Set_add [] xs"

text \<open>\<^verbatim>\<open>getUnique\<close>; \<^verbatim>\<open>filter(Boolean)\<close> drops the empty string.\<close>

definition getUnique :: "(Order \<Rightarrow> string) \<Rightarrow> Order list \<Rightarrow> string list" where
  "getUnique key allOrders = filter (\<lambda>v. v \<noteq> '''') (new_Set (map key allOrders))"

definition allStatuses :: "Order list \<Rightarrow> string list" where
  "allStatuses allOrders =
     new_Set (concat (map (\<lambda>ord. [statusLeft ord, statusRight ord]) allOrders))"

text \<open>
  The object \<^verbatim>\<open>uniqueValues\<close>, of type \<^verbatim>\<open>Record<keyof FilterState, string[]>\<close>: it has the
  shape of a filter state whose \<^verbatim>\<open>OID\<close> is present.
\<close>

definition uniqueValues :: "Order list \<Rightarrow> FilterState" where
  "uniqueValues allOrders =
     \<lparr>OID = Some [], status = allStatuses allOrders,
      type = getUnique Order.type allOrders, lock = getUnique Order.lock allOrders,
      customer = getUnique Order.customer allOrders,
      model = getUnique Order.model allOrders,
      designer = getUnique Order.designer allOrders, days = []\<rparr>"

definition DAYS_FILTER_OPTIONS :: "string list" where
  "DAYS_FILTER_OPTIONS = [''<5'', ''<15'', ''<30'', ''<60'']"

text \<open>\<^verbatim>\<open>filters[key]\<close>: \<^verbatim>\<open>undefined\<close> only for an absent \<^verbatim>\<open>OID\<close>.\<close>

fun at_key :: "FilterState \<Rightarrow> FilterKey \<Rightarrow> string list option" where
  "at_key f K_OID = OID f"
| "at_key f K_status = Some (status f)"
| "at_key f K_type = Some (FilterState.type f)"
| "at_key f K_lock = Some (FilterState.lock f)"
| "at_key f K_customer = Some (FilterState.customer f)"
| "at_key f K_model = Some (FilterState.model f)"
| "at_key f K_designer = Some (FilterState.designer f)"
| "at_key f K_days = Some (days f)"

text \<open>\<^verbatim>\<open>{ ...filters, [key]: v }\<close>.\<close>

fun with_key :: "FilterState \<Rightarrow> FilterKey \<Rightarrow> string list \<Rightarrow> FilterState" where
  "with_key f K_OID v = f\<lparr>OID := Some v\<rparr>"
| "with_key f K_status v = f\<lparr>status := v\<rparr>"
| "with_key f K_type v = f\<lparr>FilterState.type := v\<rparr>"
| "with_key f K_lock v = f\<lparr>FilterState.lock := v\<rparr>"
| "with_key f K_customer v = f\<lparr>FilterState.customer := v\<rparr>"
| "with_key f K_model v = f\<lparr>FilterState.model := v\<rparr>"
| "with_key f K_designer v = f\<lparr>FilterState.designer := v\<rparr>"
| "with_key f K_days v = f\<lparr>days := v\<rparr>"

text \<open>\<^verbatim>\<open>x || []\<close> on a possibly undefined array.\<close>

definition or_empty :: "string list option \<Rightarrow> string list" where
  "or_empty v = (case v of None \<Rightarrow> [] | Some xs \<Rightarrow> xs)"

definition getOptionsForKey :: "FilterState \<Rightarrow> FilterKey \<Rightarrow> string list" where
  "getOptionsForKey uv key =
     (if key = K_days then DAYS_FILTER_OPTIONS else or_empty (at_key uv key))"

section \<open>Application state\<close>

text \<open>\<^verbatim>\<open>interface Preset\<close> of \<^verbatim>\<open>types/filters.ts\<close>; the sort key and direction are strings
  at run time.\<close>

record Preset =
  name :: string
  filters :: FilterState
  sortKey :: string
  sortDirection :: string

text \<open>
  The React state of the three components and the browser's \<^verbatim>\<open>localStorage\<close>:
  \<^verbatim>\<open>filters\<close>, \<^verbatim>\<open>sortKey\<close>, \<^verbatim>\<open>sortDirection\<close>, \<^verbatim>\<open>activePresetName\<close>, \<^verbatim>\<open>loading\<close> of
  \<^verbatim>\<open>HomePage\<close>; \<^verbatim>\<open>page\<close> of \<^verbatim>\<open>OrderTable\<close>; \<^verbatim>\<open>open\<close>, \<^verbatim>\<open>name\<close>, \<^verbatim>\<open>presets\<close> of
  \<^verbatim>\<open>PresetManager\<close> (\<^verbatim>\<open>open\<close> is a keyword of Isabelle: the field is \<open>isOpen\<close>, after
  the prop it feeds). A state setter is a record update; \<^verbatim>\<open>getItem\<close> is the lookup in the
  map (\<^verbatim>\<open>null\<close> is \<^term>\<open>None\<close>), \<^verbatim>\<open>setItem\<close> and \<^verbatim>\<open>removeItem\<close> are map updates.
\<close>

record App =
  filters :: FilterState
  sortKey :: string
  sortDirection :: string
  activePresetName :: "string option"
  loading :: bool
  page :: int
  isOpen :: bool
  name :: string
  presets :: "Preset list"
  localStorage :: "string \<rightharpoonup> string"

text \<open>
  The exceptions. \<^verbatim>\<open>SyntaxError\<close> is thrown by \<^verbatim>\<open>JSON.parse\<close>, \<^verbatim>\<open>TypeError\<close> by
  \<^verbatim>\<open>Object.keys(undefined)\<close>. \<open>ValidationError\<close> is the error kind the specification
  names for an empty preset name; no statement of the source raises it.
\<close>

datatype error = SyntaxError | TypeError | ValidationError

text \<open>
  \<^verbatim>\<open>JSON.stringify\<close> and \<^verbatim>\<open>JSON.parse\<close> are built into the JavaScript runtime and are not
  code of the repository: the functions below take them as parameters, \<open>stringify\<close> of
  type \<^typ>\<open>Preset list \<Rightarrow> string\<close> and \<open>parse\<close> of type \<^typ>\<open>string \<Rightarrow> Preset list option\<close>
  (for the stored filter state, \<^typ>\<open>string \<Rightarrow> FilterState option\<close>), where \<^term>\<open>None\<close> is
  the \<^verbatim>\<open>SyntaxError\<close> that \<^verbatim>\<open>JSON.parse\<close> throws on a text that is not JSON.
\<close>

text \<open>Truthiness of \<^verbatim>\<open>string | null\<close>: \<^verbatim>\<open>null\<close> and the empty string are falsy.\<close>

definition truthy :: "string option \<Rightarrow> bool" where
  "truthy v = (case v of None \<Rightarrow> False | Some s \<Rightarrow> s \<noteq> [])"

text \<open>\<^verbatim>\<open>String.prototype.trim\<close>: white space is removed at both ends.\<close>

definition trim :: "string \<Rightarrow> string" where
  "trim s = rev (dropWhile StrWhiteSpaceChar (rev (dropWhile StrWhiteSpaceChar s)))"

section \<open>Preset manager\<close>

text \<open>The effect on mount (lines 49 to 52): no \<^verbatim>\<open>try\<close> surrounds \<^verbatim>\<open>JSON.parse\<close>.\<close>

definition loadPresetsEffect :: "(string \<Rightarrow> Preset list option) \<Rightarrow> App \<Rightarrow> error + App" where
  "loadPresetsEffect parse s =
     (case localStorage s ''order-presets'' of
        None \<Rightarrow> Inr s
      | Some saved \<Rightarrow>
          if saved = [] then Inr s
          else (case parse saved of
                  None \<Rightarrow> Inl SyntaxError
                | Some ps \<Rightarrow> Inr (s\<lparr>presets := ps\<rparr>)))"

text \<open>
  \<^verbatim>\<open>savePreset\<close> (lines 55 to 67). The name comes from the input field \<^verbatim>\<open>name\<close>, the
  filter and sort state from the props. The function has no \<^verbatim>\<open>throw\<close>; on a blank name
  it returns at once.
\<close>

definition savePreset :: "(Preset list \<Rightarrow> string) \<Rightarrow> App \<Rightarrow> error + App" where
  "savePreset stringify s =
     (if trim (App.name s) = [] then Inr s
      else
        (let newPreset =
               \<lparr>Preset.name = App.name s, Preset.filters = App.filters s,
                Preset.sortKey = App.sortKey s,
                Preset.sortDirection = App.sortDirection s\<rparr>;
             updated = filter (\<lambda>p. Preset.name p \<noteq> App.name s) (presets s) @ [newPreset]
         in Inr (s\<lparr>presets := updated,
                   localStorage := (localStorage s)(''order-presets'' \<mapsto> stringify updated),
                   name := []\<rparr>)))"

text \<open>\<^verbatim>\<open>loadPreset\<close> (lines 70 to 77).\<close>

definition loadPreset :: "Preset \<Rightarrow> App \<Rightarrow> App" where
  "loadPreset preset s =
     s\<lparr>filters := Preset.filters preset,
       sortKey := Preset.sortKey preset,
       sortDirection := Preset.sortDirection preset,
       activePresetName := Some (Preset.name preset),
       localStorage := (localStorage s)(''active-order-preset'' \<mapsto> Preset.name preset),
       isOpen := False\<rparr>"

text \<open>\<^verbatim>\<open>deletePreset\<close> (lines 80 to 90).\<close>

definition deletePreset :: "(Preset list \<Rightarrow> string) \<Rightarrow> string \<Rightarrow> App \<Rightarrow> App" where
  "deletePreset stringify n s =
     (let updated = filter (\<lambda>p. Preset.name p \<noteq> n) (presets s);
          s1 = s\<lparr>presets := updated,
                 localStorage := (localStorage s)(''order-presets'' \<mapsto> stringify updated)\<rparr>
      in if localStorage s1 ''active-order-preset'' = Some n
         then s1\<lparr>localStorage := (localStorage s1)(''active-order-preset'' := None),
                 activePresetName := None\<rparr>
         else s1)"

section \<open>Home page: restoring the saved session (page.tsx, lines 40 to 78)\<close>

text \<open>
  \<^verbatim>\<open>validKeys\<close>: \<^verbatim>\<open>Object.keys(allOrders[0])\<close> throws a \<^verbatim>\<open>TypeError\<close> when there is no
  order; otherwise the keys added are the properties of an order that hold a string.
\<close>

definition validKeys :: "Order list \<Rightarrow> error + string list" where
  "validKeys allOrders =
     (case allOrders of
        [] \<Rightarrow> Inl TypeError
      | _ # _ \<Rightarrow>
          Inr [''oid'', ''daysSinceOrder'', ''status'', ''statusLeft'', ''statusRight'',
               ''type'', ''lock'', ''customer'', ''model'', ''designer''])"

text \<open>Lines 42 to 56: the active preset, looked up by name in the stored collection.\<close>

definition activePreset ::
  "(string \<Rightarrow> Preset list option) \<Rightarrow> App \<Rightarrow> error + Preset option" where
  "activePreset parse s =
     (case (localStorage s ''order-presets'', localStorage s ''active-order-preset'') of
        (Some savedPresets, Some activeName) \<Rightarrow>
          if savedPresets \<noteq> [] \<and> activeName \<noteq> [] then
            (case parse savedPresets of
               None \<Rightarrow> Inl SyntaxError
             | Some all \<Rightarrow> Inr (find (\<lambda>p. Preset.name p = activeName) all))
          else Inr None
      | _ \<Rightarrow> Inr None)"

text \<open>Lines 58 to 73: the fall-back to the filters and the sort of the last session.\<close>

definition lastSession ::
  "(string \<Rightarrow> FilterState option) \<Rightarrow> Order list \<Rightarrow> App \<Rightarrow> error + App" where
  "lastSession parseFilters allOrders s =
     (let raw = localStorage s ''order-filters'';
          key = localStorage s ''order-sortKey'';
          dir = localStorage s ''order-sortDirection''
      in case validKeys allOrders of
           Inl e \<Rightarrow> Inl e
         | Inr vk \<Rightarrow>
            (case (case raw of
                     None \<Rightarrow> Inr s
                   | Some r \<Rightarrow>
                       if r = [] then Inr s
                       else (case parseFilters r of
                               None \<Rightarrow> Inl SyntaxError
                             | Some f \<Rightarrow> Inr (s\<lparr>filters := f\<rparr>))) of
               Inl e \<Rightarrow> Inl e
             | Inr s1 \<Rightarrow>
                 (let s2 = (case key of
                              None \<Rightarrow> s1
                            | Some k \<Rightarrow> if k \<in> set vk then s1\<lparr>sortKey := k\<rparr> else s1);
                      s3 = (case dir of
                              None \<Rightarrow> s2
                            | Some d \<Rightarrow>
                                if d \<in> set [''asc'', ''desc'']
                                then s2\<lparr>sortDirection := d\<rparr> else s2)
                  in Inr s3)))"

text \<open>The body of the \<^verbatim>\<open>try\<close> block.\<close>

definition loadSaved_try ::
  "(string \<Rightarrow> Preset list option) \<Rightarrow> (string \<Rightarrow> FilterState option) \<Rightarrow> Order list \<Rightarrow>
   App \<Rightarrow> error + App" where
  "loadSaved_try parse parseFilters allOrders s =
     (case activePreset parse s of
        Inl e \<Rightarrow> Inl e
      | Inr (Some active) \<Rightarrow>
          Inr (s\<lparr>filters := Preset.filters active,
                  sortKey := Preset.sortKey active,
                  sortDirection := Preset.sortDirection active,
                  activePresetName := Some (Preset.name active)\<rparr>)
      | Inr None \<Rightarrow> lastSession parseFilters allOrders s)"

text \<open>
  The whole effect: \<^verbatim>\<open>catch\<close> logs a warning and goes on; every exception of the body
  is raised before any setter is called, so the state is then the one before.
\<close>

definition loadSavedEffect ::
  "(string \<Rightarrow> Preset list option) \<Rightarrow> (string \<Rightarrow> FilterState option) \<Rightarrow> Order list \<Rightarrow>
   App \<Rightarrow> App" where
  "loadSavedEffect parse parseFilters allOrders s =
     (case loadSaved_try parse parseFilters allOrders s of
        Inl e \<Rightarrow> s\<lparr>loading := False\<rparr>
      | Inr s' \<Rightarrow> s'\<lparr>loading := False\<rparr>)"

section \<open>Order table: the handlers that change the filters\<close>

text \<open>\<^verbatim>\<open>handleToggleOption\<close> (lines 74 to 79); \<^verbatim>\<open>Set.delete\<close> removes the element.\<close>

definition handleToggleOption :: "FilterKey \<Rightarrow> string \<Rightarrow> App \<Rightarrow> App" where
  "handleToggleOption key option s =
     (let current = new_Set (or_empty (at_key (App.filters s) key));
          current' = (if option \<in> set current then removeAll option current
                      else Set_add current option)
      in s\<lparr>filters := with_key (App.filters s) key current', page := 1\<rparr>)"

text \<open>\<^verbatim>\<open>selectAll\<close> (lines 82 to 85).\<close>

definition selectAll :: "FilterKey \<Rightarrow> string list \<Rightarrow> App \<Rightarrow> App" where
  "selectAll key options s = s\<lparr>filters := with_key (App.filters s) key options, page := 1\<rparr>"

text \<open>\<^verbatim>\<open>clearFilter\<close> (lines 88 to 91).\<close>

definition clearFilter :: "FilterKey \<Rightarrow> App \<Rightarrow> App" where
  "clearFilter key s = s\<lparr>filters := with_key (App.filters s) key [], page := 1\<rparr>"

text \<open>\<^verbatim>\<open>handleAllSelect\<close> (lines 100 to 112).\<close>

definition handleAllSelect :: "FilterState \<Rightarrow> App \<Rightarrow> App" where
  "handleAllSelect uv s =
     (let newFilters =
            \<lparr>OID = None, status = status uv, type = FilterState.type uv,
             lock = FilterState.lock uv, customer = FilterState.customer uv,
             model = FilterState.model uv, designer = FilterState.designer uv,
             days = DAYS_FILTER_OPTIONS\<rparr>
      in s\<lparr>filters := newFilters, page := 1\<rparr>)"

text \<open>The handler of the button "Clear Selection" (lines 242 to 254).\<close>

definition clearSelection :: "App \<Rightarrow> App" where
  "clearSelection s =
     s\<lparr>filters :=
         \<lparr>OID = None, status = [], type = [], lock = [], customer = [], model = [],
          designer = [], days = []\<rparr>,
       localStorage := (localStorage s)(''active-order-preset'' := None),
       activePresetName := None\<rparr>"

text \<open>The state after the first render, on an empty store, used as a concrete input.\<close>

definition app0 :: App where
  "app0 =
     \<lparr>filters = defaultFilterState, sortKey = ''oid'', sortDirection = ''asc'',
      activePresetName = None, loading = True, page = 1, isOpen = False, name = [],
      presets = [], localStorage = Map.empty\<rparr>"

section \<open>Concrete inputs\<close>

text \<open>
  For the concrete evaluations: three presets, a filter state, an order whose
  \<^verbatim>\<open>statusRight\<close> is empty, and a stand-in for \<^verbatim>\<open>JSON.stringify\<close> that writes the names
  of the presets only. The theorems hold for every serializer; where a parser is needed,
  it is a finite table of texts and values.
\<close>

definition presetA :: Preset where
  "presetA =
     \<lparr>Preset.name = ''A'', Preset.filters = defaultFilterState, Preset.sortKey = ''oid'',
      Preset.sortDirection = ''asc''\<rparr>"

definition presetB :: Preset where
  "presetB =
     \<lparr>Preset.name = ''B'', Preset.filters = defaultFilterState\<lparr>status := [''QC'']\<rparr>,
      Preset.sortKey = ''customer'', Preset.sortDirection = ''desc''\<rparr>"

definition filtersX :: FilterState where
  "filtersX = defaultFilterState\<lparr>status := [''QC''], days := [''<15'']\<rparr>"

definition example_stringify :: "Preset list \<Rightarrow> string" where
  "example_stringify ps = ''['' @ concat (map (\<lambda>p. Preset.name p @ '';'') ps) @ '']''"

definition presetX :: Preset where
  "presetX =
     \<lparr>Preset.name = ''X'', Preset.filters = filtersX, Preset.sortKey = ''oid'',
      Preset.sortDirection = ''asc''\<rparr>"

definition order_blank :: Order where
  "order_blank =
     \<lparr>oid = 4, statusLeft = ''Printing'', statusRight = '''', type = ''Order'',
      lock = '''', customer = ''Cato'', daysSinceOrder = 20, model = ''M3'',
      designer = ''Finn''\<rparr>"

text \<open>An order as old as \<open>2\<^sup>5\<^sup>3\<close> days, and a preset whose name is two spaces.\<close>

definition order_old :: Order where
  "order_old =
     \<lparr>oid = 5, statusLeft = ''Delivered'', statusRight = ''Delivered'', type = ''Order'',
      lock = '''', customer = ''Dune'', daysSinceOrder = 9007199254740992, model = ''M4'',
      designer = ''Gil''\<rparr>"

definition presetBlank :: Preset where
  "presetBlank =
     \<lparr>Preset.name = ''  '', Preset.filters = defaultFilterState, Preset.sortKey = ''oid'',
      Preset.sortDirection = ''asc''\<rparr>"

section \<open>Properties of the rounding to a double\<close>

text \<open>
  The spacing chosen by \<^const>\<open>double_ulp\<close> is positive, leaves a quotient below \<open>2\<^sup>5\<^sup>3\<close>,
  and is the least power of two that does.
\<close>

lemma double_ulp_pos: "0 < u \<Longrightarrow> 0 < double_ulp a u"
proof (induction a u rule: double_ulp.induct)
  case (1 a u)
  show ?case
  proof (cases "a div u < 2 ^ 53")
    case True
    with "1.prems" show ?thesis by (subst double_ulp.simps) simp
  next
    case False
    with "1.prems" "1.IH" show ?thesis by (subst double_ulp.simps) simp
  qed
qed

lemma double_ulp_quotient: "a div double_ulp a u < 2 ^ 53"
proof (induction a u rule: double_ulp.induct)
  case (1 a u)
  show ?case
  proof (cases "a div u < 2 ^ 53")
    case True
    then show ?thesis by (subst double_ulp.simps) simp
  next
    case False
    with "1.IH" show ?thesis by (subst double_ulp.simps) simp
  qed
qed

lemma double_ulp_least:
  "double_ulp a u = u \<or> 2 ^ 53 \<le> a div (double_ulp a u div 2)"
proof (induction a u rule: double_ulp.induct)
  case (1 a u)
  show ?case
  proof (cases "a div u < 2 ^ 53")
    case True
    then show ?thesis by (subst double_ulp.simps) simp
  next
    case False
    then have eq: "double_ulp a u = double_ulp a (2 * u)" by (subst double_ulp.simps) simp
    from False "1.IH" have "double_ulp a (2 * u) = 2 * u \<or>
        2 ^ 53 \<le> a div (double_ulp a (2 * u) div 2)" by simp
    then show ?thesis
    proof
      assume w: "double_ulp a (2 * u) = 2 * u"
      have "2 ^ 53 \<le> a div (2 * u div 2)" using False by simp
      then have "2 ^ 53 \<le> a div (double_ulp a u div 2)" by (simp only: eq w)
      then show ?thesis by (rule disjI2)
    next
      assume "2 ^ 53 \<le> a div (double_ulp a (2 * u) div 2)"
      then have "2 ^ 53 \<le> a div (double_ulp a u div 2)" by (simp only: eq)
      then show ?thesis by (rule disjI2)
    qed
  qed
qed

lemma double_ulp_small: "a < 2 ^ 53 \<Longrightarrow> double_ulp a 1 = 1"
  by (subst double_ulp.simps) simp

text \<open>An integer below \<open>2\<^sup>5\<^sup>3\<close> in magnitude is its own double.\<close>

lemma to_double_exact: "\<bar>n\<bar> < 2 ^ 53 \<Longrightarrow> to_double n = Num n"
proof -
  assume b: "\<bar>n\<bar> < 2 ^ 53"
  have "(2::int) ^ 53 < 2 ^ 1024" by simp
  with b have "\<not> (2::int) ^ 1024 \<le> \<bar>n\<bar>" by linarith
  moreover have "sgn n * \<bar>n\<bar> = n" by (rule sgn_mult_abs)
  ultimately show ?thesis using b
    by (simp add: to_double_def double_ulp_small Let_def)
qed

text \<open>
  A finite result is a multiple of the spacing and no further than half of it from the
  integer.
\<close>

lemma to_double_nearest:
  assumes "to_double n = Num m"
  shows "2 * \<bar>m - n\<bar> \<le> double_ulp \<bar>n\<bar> 1 \<and> double_ulp \<bar>n\<bar> 1 dvd m"
proof -
  define a where "a = \<bar>n\<bar>"
  define u where "u = double_ulp a 1"
  define q where "q = a div u"
  define r where "r = a mod u"
  define q' where "q' = (if 2 * r < u then q else if u < 2 * r then q + 1
                else if even q then q else q + 1)"
  have up: "0 < u" unfolding u_def by (rule double_ulp_pos) simp
  have ar: "a = q * u + r" by (simp add: q_def r_def)
  have r0: "0 \<le> r" "r < u" using up by (simp_all add: r_def)
  have td: "to_double n = (if 2 ^ 1024 \<le> q' * u then (if n < 0 then MinusInfinity else PlusInfinity)
         else Num (sgn n * (q' * u)))"
    by (simp add: to_double_def Let_def a_def u_def q_def r_def q'_def)
  with assms have m: "m = sgn n * (q' * u)" by (simp split: if_splits)
  have near: "2 * \<bar>q' * u - a\<bar> \<le> u"
  proof -
    have "(q' = q \<and> 2 * r \<le> u) \<or> (q' = q + 1 \<and> u \<le> 2 * r)"
    proof (cases "2 * r < u")
      case True
      then show ?thesis by (simp add: q'_def)
    next
      case False
      show ?thesis
      proof (cases "u < 2 * r")
        case True
        with False show ?thesis by (simp add: q'_def)
      next
        case nlt: False
        with False have "2 * r = u" by simp
        then show ?thesis by (simp add: q'_def)
      qed
    qed
    then consider "q' = q" "2 * r \<le> u" | "q' = q + 1" "u \<le> 2 * r" by blast
    then show ?thesis
    proof cases
      case 1
      then show ?thesis using ar r0 by simp
    next
      case 2
      have "(q + 1) * u - a = u - r" using ar by (simp add: algebra_simps)
      with 2 r0 show ?thesis by simp
    qed
  qed
  have "\<bar>m - n\<bar> = \<bar>q' * u - a\<bar>"
  proof (cases "n < 0")
    case True
    then have "m = - (q' * u)" "n = - a" using m by (simp_all add: a_def)
    then show ?thesis by simp
  next
    case False
    show ?thesis
    proof (cases "n = 0")
      case True
      then have "a = 0" by (simp add: a_def)
      then have "q = 0" "r = 0" by (simp_all add: q_def r_def)
      then have "q' = 0" using up by (simp add: q'_def)
      with True m \<open>a = 0\<close> show ?thesis by simp
    next
      case nz: False
      with False have "0 < n" by simp
      then have "m = q' * u" "n = a" using m by (simp_all add: a_def)
      then show ?thesis by simp
    qed
  qed
  with near have "2 * \<bar>m - n\<bar> \<le> u" by simp
  moreover have "u dvd m" using m by simp
  ultimately show ?thesis by (simp add: u_def a_def)
qed

text \<open>Ties go to the even significand; \<open>2\<^sup>1\<^sup>0\<^sup>2\<^sup>4\<close> is beyond the doubles.\<close>

lemma to_double_examples:
  "to_double 9007199254740993 = Num 9007199254740992"
  "to_double 9007199254740995 = Num 9007199254740996"
  "to_double (- 9007199254740993) = Num (- 9007199254740992)"
  by (simp_all add: to_double_def Let_def double_ulp.simps[of _ 1] double_ulp.simps[of _ 2])

lemma double_ulp_steps:
  "(\<And>j. j < k \<Longrightarrow> 2 ^ 53 \<le> a div (u * 2 ^ j)) \<Longrightarrow> double_ulp a u = double_ulp a (u * 2 ^ k)"
proof (induction k arbitrary: u)
  case 0
  show ?case by simp
next
  case (Suc k)
  from Suc.prems[of 0] have "\<not> a div u < 2 ^ 53" by simp
  then have s: "double_ulp a u = double_ulp a (2 * u)" by (subst double_ulp.simps) simp
  have "double_ulp a (2 * u) = double_ulp a (2 * u * 2 ^ k)"
  proof (rule Suc.IH)
    fix j assume "j < k"
    then have "Suc j < Suc k" by simp
    from Suc.prems[OF this] show "2 ^ 53 \<le> a div (2 * u * 2 ^ j)" by (simp add: mult.assoc mult.left_commute)
  qed
  with s show ?case by (simp add: mult.assoc mult.left_commute)
qed

lemma to_double_infinity: "to_double (2 ^ 1024) = PlusInfinity"
proof -
  have d: "(2::int) ^ 1024 div 2 ^ j = 2 ^ (1024 - j)" if "j \<le> 1024" for j
    using that by (simp add: power_diff)
  have "double_ulp (2 ^ 1024) 1 = double_ulp (2 ^ 1024) (1 * 2 ^ 972)"
  proof (rule double_ulp_steps)
    fix j :: nat assume j: "j < 972"
    then have "(2::int) ^ 1024 div (1 * 2 ^ j) = 2 ^ (1024 - j)" using d[of j] by simp
    moreover have "(2::int) ^ 53 \<le> 2 ^ (1024 - j)" using j by (intro power_increasing) simp_all
    ultimately show "(2::int) ^ 53 \<le> 2 ^ 1024 div (1 * 2 ^ j)" by simp
  qed
  also have "\<dots> = 2 ^ 972"
    using d[of 972] by (subst double_ulp.simps) simp
  finally have u: "double_ulp (2 ^ 1024) 1 = 2 ^ 972" .
  have q: "(2::int) ^ 1024 div 2 ^ 972 = 2 ^ 52" using d[of 972] by simp
  have r: "(2::int) ^ 1024 mod 2 ^ 972 = 0"
    by (rule dvd_imp_mod_0) (rule le_imp_power_dvd, simp)
  have m: "(2::int) ^ 52 * 2 ^ 972 = 2 ^ 1024" by (simp flip: power_add)
  have a: "\<bar>(2::int) ^ 1024\<bar> = 2 ^ 1024" by simp
  show ?thesis
    unfolding to_double_def Let_def a u q r by simp
qed

section \<open>Properties of the filter evaluator\<close>

lemma matchDays_iff:
  "matchDays v fs \<longleftrightarrow> fs = [] \<or> (\<exists>l \<in> set fs. less_Number v (threshold l))"
  by (auto simp: matchDays_def list_ex_iff)

lemma decimal_snoc: "decimal (ds @ [c]) = 10 * decimal ds + digit_value c"
  by (simp add: decimal_def)

lemma decimal_nonneg: "list_all is_digit ds \<Longrightarrow> 0 \<le> decimal ds"
proof (induction ds rule: rev_induct)
  case Nil
  show ?case by (simp add: decimal_def)
next
  case (snoc c ds)
  then have "0 \<le> decimal ds" "0 \<le> digit_value c"
    by (simp_all add: is_digit_def digit_value_def)
  then show ?case by (simp add: decimal_snoc)
qed

lemma parseInt10_digits:
  assumes "ds \<noteq> []" "list_all is_digit ds"
  shows "parseInt10 ds = to_double (decimal ds)"
proof -
  obtain c r where ds: "ds = c # r" using assms(1) by (cases ds) auto
  have dc: "is_digit c" using assms(2) ds by simp
  have nws: "\<not> StrWhiteSpaceChar c" using dc by (auto simp: is_digit_def StrWhiteSpaceChar_def)
  have nsign: "c \<noteq> CHR ''-''" "c \<noteq> CHR ''+''" using dc by (auto simp: is_digit_def)
  have tw: "takeWhile is_digit ds = ds" using assms(2) by (simp add: list_all_iff)
  show ?thesis using nws nsign tw ds by (simp add: parseInt10_def Let_def)
qed

lemma threshold_wellformed:
  "ds \<noteq> [] \<Longrightarrow> list_all is_digit ds \<Longrightarrow> threshold (CHR ''<'' # ds) = to_double (decimal ds)"
  by (simp add: threshold_def parseInt10_digits)

lemma threshold_exact:
  assumes "ds \<noteq> []" "list_all is_digit ds" "decimal ds < 2 ^ 53"
  shows "threshold (CHR ''<'' # ds) = Num (decimal ds)"
proof -
  have "\<bar>decimal ds\<bar> < 2 ^ 53" using decimal_nonneg[OF assms(2)] assms(3) by simp
  then show ?thesis by (simp only: threshold_wellformed[OF assms(1,2)] to_double_exact)
qed

lemma threshold_no_number:
  "r = [] \<or> \<not> (is_digit (hd r) \<or> StrWhiteSpaceChar (hd r) \<or> hd r = CHR ''-'' \<or> hd r = CHR ''+'')
    \<Longrightarrow> threshold (CHR ''<'' # r) = NaN"
  by (cases r) (auto simp: threshold_def parseInt10_def Let_def)

lemma threshold_examples:
  "threshold ''<5'' = Num 5" "threshold ''<15'' = Num 15" "threshold ''<30'' = Num 30"
  "threshold ''<60'' = Num 60" "threshold ''<abc'' = NaN" "threshold ''1<5'' = Num 15"
  "threshold ''<15abc'' = Num 15"
  by (simp_all add: threshold_def parseInt10_def StrWhiteSpaceChar_def is_digit_def
      decimal_def digit_value_def to_double_exact)

lemma threshold_rounded:
  "threshold ''<9007199254740993'' = Num 9007199254740992"
  "threshold ''<9007199254740995'' = Num 9007199254740996"
proof -
  have "decimal ''9007199254740993'' = 9007199254740993"
    "decimal ''9007199254740995'' = 9007199254740995"
    by (simp_all add: decimal_def digit_value_def)
  then show "threshold ''<9007199254740993'' = Num 9007199254740992"
    "threshold ''<9007199254740995'' = Num 9007199254740996"
    by (simp_all add: threshold_wellformed is_digit_def to_double_examples)
qed

text \<open>
  Claim C1, as stated, fails: the label \<^verbatim>\<open>1<5\<close> has no leading \<^verbatim>\<open><\<close>, so by the claim's
  reading it is malformed and matches nothing; the source removes the \<^verbatim>\<open><\<close> inside the
  label, reads the threshold 15, and an order that is 10 days old matches.
\<close>

theorem matches_days_counterexample:
  "matches order10 (defaultFilterState\<lparr>days := [''1<5'']\<rparr>) \<and>
   \<not> spec_matches order10 (defaultFilterState\<lparr>days := [''1<5'']\<rparr>)"
  by (simp add: matches_def Object_entries_def defaultFilterState_def matchDays_def
      threshold_examples order10_def spec_matches_def spec_threshold_def is_digit_def)

text \<open>
  Claim C1, amended: \<^const>\<open>matches\<close> is true iff every field matches (AND across fields),
  where an empty or absent selection matches; a non-empty status selection matches iff
  \<^verbatim>\<open>statusLeft\<close> or \<^verbatim>\<open>statusRight\<close> is in it; a non-empty days selection matches iff
  \<^verbatim>\<open>daysSinceOrder\<close> is strictly less than the threshold of at least one selected label,
  the threshold being \<^verbatim>\<open>parseInt\<close> (base 10) of the label with its first \<^verbatim>\<open><\<close>, at any
  position, removed; \<^verbatim>\<open>type\<close>, \<^verbatim>\<open>lock\<close>, \<^verbatim>\<open>customer\<close>, \<^verbatim>\<open>model\<close> and \<^verbatim>\<open>designer\<close> match by
  exact membership of the order's value; a non-empty \<^verbatim>\<open>OID\<close> selection matches no order.
  A label \<^verbatim>\<open><\<close> followed by decimal digits has as threshold the double nearest to the
  number they write: the number itself when it is below \<open>2\<^sup>5\<^sup>3\<close>, otherwise a multiple of
  the spacing of the doubles there, no further than half the spacing away, or
  \<^verbatim>\<open>Infinity\<close>, which every order is below. A label \<^verbatim>\<open><\<close> followed by nothing, or by a
  character that is neither a digit, a sign nor white space, has the threshold \<^verbatim>\<open>NaN\<close>
  and matches nothing (no exception is raised).
\<close>

theorem matches_iff:
  "(matches order f \<longleftrightarrow>
     (case OID f of None \<Rightarrow> True | Some sel \<Rightarrow> sel = []) \<and>
     (status f = [] \<or> statusLeft order \<in> set (status f) \<or> statusRight order \<in> set (status f)) \<and>
     (days f = [] \<or>
        (\<exists>l \<in> set (days f). less_Number (daysSinceOrder order) (threshold l))) \<and>
     (FilterState.type f = [] \<or> Order.type order \<in> set (FilterState.type f)) \<and>
     (FilterState.lock f = [] \<or> Order.lock order \<in> set (FilterState.lock f)) \<and>
     (FilterState.customer f = [] \<or> Order.customer order \<in> set (FilterState.customer f)) \<and>
     (FilterState.model f = [] \<or> Order.model order \<in> set (FilterState.model f)) \<and>
     (FilterState.designer f = [] \<or> Order.designer order \<in> set (FilterState.designer f))) \<and>
   (\<forall>v t. less_Number v (Num t) = (v < t)) \<and>
   (\<forall>v. \<not> less_Number v NaN \<and> less_Number v PlusInfinity \<and> \<not> less_Number v MinusInfinity) \<and>
   (\<forall>l. threshold l = parseInt10 (remove1 (CHR ''<'') l)) \<and>
   (\<forall>ds. ds \<noteq> [] \<and> list_all is_digit ds \<longrightarrow>
      threshold (CHR ''<'' # ds) = to_double (decimal ds)) \<and>
   (\<forall>ds. ds \<noteq> [] \<and> list_all is_digit ds \<and> decimal ds < 2 ^ 53 \<longrightarrow>
      threshold (CHR ''<'' # ds) = Num (decimal ds)) \<and>
   (\<forall>n m. to_double n = Num m \<longrightarrow>
      2 * \<bar>m - n\<bar> \<le> double_ulp \<bar>n\<bar> 1 \<and> double_ulp \<bar>n\<bar> 1 dvd m) \<and>
   (\<forall>r. r = [] \<or>
        \<not> (is_digit (hd r) \<or> StrWhiteSpaceChar (hd r) \<or> hd r = CHR ''-'' \<or> hd r = CHR ''+'')
        \<longrightarrow> threshold (CHR ''<'' # r) = NaN)"
proof (intro conjI allI impI)
  show "matches order f \<longleftrightarrow>
     (case OID f of None \<Rightarrow> True | Some sel \<Rightarrow> sel = []) \<and>
     (status f = [] \<or> statusLeft order \<in> set (status f) \<or> statusRight order \<in> set (status f)) \<and>
     (days f = [] \<or>
        (\<exists>l \<in> set (days f). less_Number (daysSinceOrder order) (threshold l))) \<and>
     (FilterState.type f = [] \<or> Order.type order \<in> set (FilterState.type f)) \<and>
     (FilterState.lock f = [] \<or> Order.lock order \<in> set (FilterState.lock f)) \<and>
     (FilterState.customer f = [] \<or> Order.customer order \<in> set (FilterState.customer f)) \<and>
     (FilterState.model f = [] \<or> Order.model order \<in> set (FilterState.model f)) \<and>
     (FilterState.designer f = [] \<or> Order.designer order \<in> set (FilterState.designer f))"
    by (cases "OID f") (auto simp: matches_def Object_entries_def matchDays_iff)
next
  fix v t show "less_Number v (Num t) = (v < t)" by simp
next
  fix v show "\<not> less_Number v NaN" by simp
next
  fix v show "less_Number v PlusInfinity" by simp
next
  fix v show "\<not> less_Number v MinusInfinity" by simp
next
  fix l show "threshold l = parseInt10 (remove1 (CHR ''<'') l)" by (simp add: threshold_def)
next
  fix ds :: string assume "ds \<noteq> [] \<and> list_all is_digit ds"
  then show "threshold (CHR ''<'' # ds) = to_double (decimal ds)"
    by (simp add: threshold_wellformed)
next
  fix ds :: string assume "ds \<noteq> [] \<and> list_all is_digit ds \<and> decimal ds < 2 ^ 53"
  then show "threshold (CHR ''<'' # ds) = Num (decimal ds)"
    by (intro threshold_exact) simp_all
next
  fix n m assume "to_double n = Num m"
  then show "2 * \<bar>m - n\<bar> \<le> double_ulp \<bar>n\<bar> 1" by (simp add: to_double_nearest)
next
  fix n m assume "to_double n = Num m"
  then show "double_ulp \<bar>n\<bar> 1 dvd m" by (simp add: to_double_nearest)
next
  fix r :: string
  assume "r = [] \<or>
        \<not> (is_digit (hd r) \<or> StrWhiteSpaceChar (hd r) \<or> hd r = CHR ''-'' \<or> hd r = CHR ''+'')"
  then show "threshold (CHR ''<'' # r) = NaN" by (rule threshold_no_number)
qed

text \<open>
  The amended claim at an order that is 10 days old: \<^verbatim>\<open>["<5"]\<close> does not match,
  \<^verbatim>\<open>["<5", "<15"]\<close> does, and neither does \<^verbatim>\<open>["<abc"]\<close>; and at an order that is
  \<open>2\<^sup>5\<^sup>3\<close> days old: the label \<^verbatim>\<open><9007199254740993\<close> is read as \<open>2\<^sup>5\<^sup>3\<close> and does not
  match, the label \<^verbatim>\<open><9007199254740995\<close> is read as \<open>2\<^sup>5\<^sup>3 + 4\<close> and matches.
\<close>

theorem matches_iff_witness:
  "matches order10 (defaultFilterState\<lparr>status := [''QC''], days := [''<5'', ''<15'']\<rparr>) \<and>
   \<not> matches order10 (defaultFilterState\<lparr>days := [''<5'']\<rparr>) \<and>
   \<not> matches order10 (defaultFilterState\<lparr>days := [''<abc'']\<rparr>) \<and>
   \<not> matches order_old (defaultFilterState\<lparr>days := [''<9007199254740993'']\<rparr>) \<and>
   matches order_old (defaultFilterState\<lparr>days := [''<9007199254740995'']\<rparr>) \<and>
   threshold ''<15'' = Num (decimal ''15'')"
proof -
  note t1 = matches_iff[of order10 "defaultFilterState\<lparr>status := [''QC''], days := [''<5'', ''<15'']\<rparr>"]
  note t2 = matches_iff[of order10 "defaultFilterState\<lparr>days := [''<5'']\<rparr>"]
  note t3 = matches_iff[of order10 "defaultFilterState\<lparr>days := [''<abc'']\<rparr>"]
  note t4 = matches_iff[of order_old "defaultFilterState\<lparr>days := [''<9007199254740993'']\<rparr>"]
  note t5 = matches_iff[of order_old "defaultFilterState\<lparr>days := [''<9007199254740995'']\<rparr>"]
  have a: "matches order10 (defaultFilterState\<lparr>status := [''QC''], days := [''<5'', ''<15'']\<rparr>)"
    by (subst t1[THEN conjunct1]) (simp add: defaultFilterState_def order10_def threshold_examples)
  have b: "\<not> matches order10 (defaultFilterState\<lparr>days := [''<5'']\<rparr>)"
    by (subst t2[THEN conjunct1]) (simp add: defaultFilterState_def order10_def threshold_examples)
  have c: "\<not> matches order10 (defaultFilterState\<lparr>days := [''<abc'']\<rparr>)"
    by (subst t3[THEN conjunct1]) (simp add: defaultFilterState_def order10_def threshold_examples)
  have d: "\<not> matches order_old (defaultFilterState\<lparr>days := [''<9007199254740993'']\<rparr>)"
    by (subst t4[THEN conjunct1]) (simp add: defaultFilterState_def order_old_def threshold_rounded)
  have e: "matches order_old (defaultFilterState\<lparr>days := [''<9007199254740995'']\<rparr>)"
    by (subst t5[THEN conjunct1]) (simp add: defaultFilterState_def order_old_def threshold_rounded)
  have "decimal ''15'' < 2 ^ 53" by (simp add: decimal_def digit_value_def)
  then have g: "threshold ''<15'' = Num (decimal ''15'')"
    by (intro t1[THEN conjunct2, THEN conjunct2, THEN conjunct2, THEN conjunct2, THEN conjunct2,
          THEN conjunct1, rule_format]) (simp add: is_digit_def)
  from a b c d e g show ?thesis by simp
qed

section \<open>Properties of the sort\<close>

lemma mset_sort_insert: "mset (sort_insert cmp x xs) = add_mset x (mset xs)"
  by (induction xs) auto

lemma mset_Array_sort: "mset (Array_sort cmp xs) = mset xs"
  by (induction xs) (auto simp: mset_sort_insert)

lemma set_sort_insert: "set (sort_insert cmp x xs) = insert x (set xs)"
  by (induction xs) auto

lemma sorted_sort_insert:
  assumes total: "\<And>a b. 0 < cmp a b \<Longrightarrow> cmp b a \<le> 0"
    and trans: "\<And>a b c. cmp a b \<le> 0 \<Longrightarrow> cmp b c \<le> 0 \<Longrightarrow> cmp a c \<le> 0"
    and srt: "sorted_wrt (\<lambda>a b. cmp a b \<le> 0) xs"
  shows "sorted_wrt (\<lambda>a b. cmp a b \<le> 0) (sort_insert cmp x xs)"
  using srt
proof (induction xs)
  case Nil
  then show ?case by simp
next
  case (Cons y ys)
  show ?case
  proof (cases "cmp x y \<le> 0")
    case True
    have "\<forall>z \<in> set ys. cmp x z \<le> 0"
      using Cons.prems True trans by auto
    with True Cons.prems show ?thesis by simp
  next
    case False
    then have "cmp y x \<le> 0" using total by force
    with False Cons show ?thesis by (auto simp: set_sort_insert)
  qed
qed

lemma sorted_Array_sort:
  assumes "\<And>a b. 0 < cmp a b \<Longrightarrow> cmp b a \<le> 0"
    and "\<And>a b c. cmp a b \<le> 0 \<Longrightarrow> cmp b c \<le> 0 \<Longrightarrow> cmp a c \<le> 0"
  shows "sorted_wrt (\<lambda>a b. cmp a b \<le> 0) (Array_sort cmp xs)"
  by (induction xs) (auto intro: sorted_sort_insert assms)

text \<open>Stability: elements that tie pairwise are never moved past each other.\<close>

lemma filter_sort_insert:
  assumes "\<And>u v. P u \<Longrightarrow> P v \<Longrightarrow> cmp u v \<le> 0"
  shows "filter P (sort_insert cmp x xs) = filter P (x # xs)"
proof (induction xs)
  case Nil
  show ?case by simp
next
  case (Cons y ys)
  show ?case
  proof (cases "cmp x y \<le> 0")
    case True
    then show ?thesis by simp
  next
    case False
    then have "\<not> (P x \<and> P y)" using assms by blast
    with False Cons show ?thesis by auto
  qed
qed

lemma filter_Array_sort:
  assumes "\<And>u v. P u \<Longrightarrow> P v \<Longrightarrow> cmp u v \<le> 0"
  shows "filter P (Array_sort cmp xs) = filter P xs"
  by (induction xs) (simp_all add: filter_sort_insert assms)

text \<open>
  A sorted and stable rearrangement is unique, so the result does not depend on the
  algorithm by which \<^verbatim>\<open>Array.prototype.sort\<close> reaches it.
\<close>

lemma stable_sorted_unique:
  assumes refl: "\<And>a. cmp a a = 0"
    and antisym: "\<And>a b. cmp a b \<le> 0 \<Longrightarrow> cmp b a \<le> 0 \<Longrightarrow> cmp a b = 0"
  shows "sorted_wrt (\<lambda>a b. cmp a b \<le> 0) ys \<Longrightarrow> sorted_wrt (\<lambda>a b. cmp a b \<le> 0) zs \<Longrightarrow>
         mset ys = mset zs \<Longrightarrow>
         (\<forall>a \<in> set ys. filter (\<lambda>b. cmp a b = 0) ys = filter (\<lambda>b. cmp a b = 0) zs) \<Longrightarrow>
         ys = zs"
proof (induction ys arbitrary: zs)
  case Nil
  then show ?case by simp
next
  case (Cons y ys')
  from Cons.prems(3) obtain z zs' where zs: "zs = z # zs'"
    by (cases zs) auto
  have tie_y: "filter (\<lambda>b. cmp y b = 0) (y # ys') = filter (\<lambda>b. cmp y b = 0) (z # zs')"
    using Cons.prems(4) zs by simp
  have yz: "y = z"
  proof (cases "cmp y z = 0")
    case True
    with tie_y refl show ?thesis by simp
  next
    case False
    then have ne: "y \<noteq> z" using refl by auto
    have "z \<in> set (y # ys')" using Cons.prems(3) zs by (metis list.set_intros(1) set_mset_mset)
    with ne have "z \<in> set ys'" by simp
    then have le1: "cmp y z \<le> 0" using Cons.prems(1) by simp
    have "y \<in> set (z # zs')" using Cons.prems(3) zs by (metis list.set_intros(1) set_mset_mset)
    with ne have "y \<in> set zs'" by simp
    then have le2: "cmp z y \<le> 0" using Cons.prems(2) zs by simp
    from antisym[OF le1 le2] False show ?thesis by simp
  qed
  have s1: "sorted_wrt (\<lambda>a b. cmp a b \<le> 0) ys'" using Cons.prems(1) by simp
  have s2: "sorted_wrt (\<lambda>a b. cmp a b \<le> 0) zs'" using Cons.prems(2) zs by simp
  have m: "mset ys' = mset zs'" using Cons.prems(3) zs yz by simp
  have f: "\<forall>a \<in> set ys'. filter (\<lambda>b. cmp a b = 0) ys' = filter (\<lambda>b. cmp a b = 0) zs'"
  proof
    fix a assume a: "a \<in> set ys'"
    then have "filter (\<lambda>b. cmp a b = 0) (y # ys') = filter (\<lambda>b. cmp a b = 0) (y # zs')"
      using Cons.prems(4) zs yz by simp
    then show "filter (\<lambda>b. cmp a b = 0) ys' = filter (\<lambda>b. cmp a b = 0) zs'"
      by (simp split: if_splits)
  qed
  from Cons.IH[OF s1 s2 m f] yz zs show ?case by simp
qed

section \<open>Properties of the comparator\<close>

lemma three_way_le0: "three_way x y d \<le> 0 \<longleftrightarrow> (if d = ''asc'' then x \<le> y else y \<le> x)"
  by (auto simp: three_way_def)

lemma three_way_eq0: "three_way x y d = 0 \<longleftrightarrow> x = y"
  by (auto simp: three_way_def)

text \<open>Whatever the key, the comparator compares one number or one string per order.\<close>

lemma compareFn_cases:
  obtains (num) fi :: "Order \<Rightarrow> int" where "compareFn k d = (\<lambda>a b. three_way (fi a) (fi b) d)"
  | (str) fs :: "Order \<Rightarrow> string" where "compareFn k d = (\<lambda>a b. three_way (fs a) (fs b) d)"
  | (undef) "compareFn k d = (\<lambda>a b. 0)"
proof -
  consider "k = ''daysSinceOrder''" | "k = ''status''" | "k = ''oid''" | "k = ''statusLeft''"
    | "k = ''statusRight''" | "k = ''type''" | "k = ''lock''" | "k = ''customer''" | "k = ''model''"
    | "k = ''designer''"
    | "k \<notin> {''daysSinceOrder'', ''status'', ''oid'', ''statusLeft'', ''statusRight'', ''type'',
        ''lock'', ''customer'', ''model'', ''designer''}"
    by (simp only: insert_iff empty_iff) metis
  then show thesis
  proof cases
    case 1 then show ?thesis by (intro num[of daysSinceOrder] ext) (simp add: compareFn_def)
  next
    case 2 then show ?thesis
      by (intro num[of "\<lambda>a. indexOf statusPriority (statusLeft a)"] ext) (simp add: compareFn_def)
  next
    case 3 then show ?thesis by (intro num[of oid] ext) (simp add: compareFn_def)
  next
    case 4 then show ?thesis by (intro str[of statusLeft] ext) (simp add: compareFn_def)
  next
    case 5 then show ?thesis by (intro str[of statusRight] ext) (simp add: compareFn_def)
  next
    case 6 then show ?thesis by (intro str[of Order.type] ext) (simp add: compareFn_def)
  next
    case 7 then show ?thesis by (intro str[of Order.lock] ext) (simp add: compareFn_def)
  next
    case 8 then show ?thesis by (intro str[of Order.customer] ext) (simp add: compareFn_def)
  next
    case 9 then show ?thesis by (intro str[of Order.model] ext) (simp add: compareFn_def)
  next
    case 10 then show ?thesis by (intro str[of Order.designer] ext) (simp add: compareFn_def)
  next
    case 11 then show ?thesis by (intro undef ext) (simp add: compareFn_def)
  qed
qed

lemma compareFn_total: "0 < compareFn k d a b \<Longrightarrow> compareFn k d b a \<le> 0"
  by (cases k d rule: compareFn_cases) (auto simp: three_way_def split: if_splits)

lemma compareFn_trans:
  "compareFn k d a b \<le> 0 \<Longrightarrow> compareFn k d b c \<le> 0 \<Longrightarrow> compareFn k d a c \<le> 0"
  by (cases k d rule: compareFn_cases) (auto simp: three_way_le0 split: if_splits)

lemma compareFn_tie_class:
  "compareFn k d a u = 0 \<Longrightarrow> compareFn k d a v = 0 \<Longrightarrow> compareFn k d u v = 0"
  by (cases k d rule: compareFn_cases) (auto simp: three_way_eq0)

lemma compareFn_refl: "compareFn k d a a = 0"
  by (cases k d rule: compareFn_cases) (auto simp: three_way_eq0)

lemma compareFn_antisym:
  "compareFn k d a b \<le> 0 \<Longrightarrow> compareFn k d b a \<le> 0 \<Longrightarrow> compareFn k d a b = 0"
  by (cases k d rule: compareFn_cases) (auto simp: three_way_le0 three_way_eq0 split: if_splits)

lemma compareFn_range: "compareFn k d a b \<in> {- 1, 0, 1}"
  by (cases k d rule: compareFn_cases) (auto simp: three_way_def)

lemma indexOf_ge: "- 1 \<le> indexOf xs x"
  by (induction xs) (auto simp: Let_def)

lemma indexOf_absent: "indexOf xs x = - 1 \<longleftrightarrow> x \<notin> set xs"
proof (induction xs)
  case Nil
  show ?case by simp
next
  case (Cons y ys)
  have "- 1 \<le> indexOf ys x" by (rule indexOf_ge)
  with Cons show ?case by (auto simp: Let_def)
qed

lemma indexOf_present:
  "x \<in> set xs \<Longrightarrow>
     0 \<le> indexOf xs x \<and> indexOf xs x < int (length xs) \<and> xs ! nat (indexOf xs x) = x"
proof (induction xs)
  case Nil
  then show ?case by simp
next
  case (Cons y ys)
  show ?case
  proof (cases "y = x")
    case True
    then show ?thesis by simp
  next
    case False
    with Cons
    have "0 \<le> indexOf ys x \<and> indexOf ys x < int (length ys) \<and> ys ! nat (indexOf ys x) = x"
      by simp
    with False show ?thesis by (simp add: Let_def nat_add_distrib)
  qed
qed

text \<open>
  Claim C4: under the sort key \<^verbatim>\<open>status\<close>, ascending, two orders are compared by the index
  of their \<^verbatim>\<open>statusLeft\<close> in the priority list; a listed status has its position as index,
  an unlisted one has index \<open>-1\<close>, so an order with an unlisted status compares before every
  order with a listed one, and in the sorted output no order with a listed status stands
  before an order with an unlisted one.
\<close>

theorem status_sort:
  "compareFn ''status'' ''asc'' a b =
     (if indexOf statusPriority (statusLeft a) < indexOf statusPriority (statusLeft b) then - 1
      else if indexOf statusPriority (statusLeft b) < indexOf statusPriority (statusLeft a) then 1
      else 0) \<and>
   statusPriority =
     [''Open Order'', ''Printing'', ''Drying'', ''QC'', ''Ready for Packaging'', ''Delivered''] \<and>
   (statusLeft a \<in> set statusPriority \<longrightarrow>
      0 \<le> indexOf statusPriority (statusLeft a) \<and>
      statusPriority ! nat (indexOf statusPriority (statusLeft a)) = statusLeft a) \<and>
   (statusLeft a \<notin> set statusPriority \<longrightarrow> indexOf statusPriority (statusLeft a) = - 1) \<and>
   (statusLeft a \<notin> set statusPriority \<and> statusLeft b \<in> set statusPriority \<longrightarrow>
      compareFn ''status'' ''asc'' a b = - 1 \<and> compareFn ''status'' ''asc'' b a = 1) \<and>
   sorted_wrt (\<lambda>x y. \<not> (statusLeft x \<in> set statusPriority \<and> statusLeft y \<notin> set statusPriority))
     (sortedAndFilteredOrders allOrders f ''status'' ''asc'')"
proof -
  have c: "compareFn ''status'' ''asc'' u v =
     (if indexOf statusPriority (statusLeft u) < indexOf statusPriority (statusLeft v) then - 1
      else if indexOf statusPriority (statusLeft v) < indexOf statusPriority (statusLeft u) then 1
      else 0)" for u v
    by (simp add: compareFn_def three_way_def)
  have absent: "indexOf statusPriority (statusLeft u) = - 1"
    if "statusLeft u \<notin> set statusPriority" for u
    using that indexOf_absent[of statusPriority "statusLeft u"] by blast
  have present: "0 \<le> indexOf statusPriority (statusLeft u)"
    if "statusLeft u \<in> set statusPriority" for u
    using indexOf_present[OF that] by simp
  have before: "compareFn ''status'' ''asc'' u v = - 1 \<and> compareFn ''status'' ''asc'' v u = 1"
    if "statusLeft u \<notin> set statusPriority" "statusLeft v \<in> set statusPriority" for u v
    using absent[OF that(1)] present[OF that(2)] by (simp only: c) simp
  have srt: "sorted_wrt (\<lambda>x y. compareFn ''status'' ''asc'' x y \<le> 0)
     (sortedAndFilteredOrders allOrders f ''status'' ''asc'')"
    unfolding sortedAndFilteredOrders_def
    by (rule sorted_Array_sort) (erule compareFn_total, erule (1) compareFn_trans)
  have mono: "\<not> (statusLeft x \<in> set statusPriority \<and> statusLeft y \<notin> set statusPriority)"
    if "compareFn ''status'' ''asc'' x y \<le> 0" for x y
  proof
    assume "statusLeft x \<in> set statusPriority \<and> statusLeft y \<notin> set statusPriority"
    then have "compareFn ''status'' ''asc'' x y = 1" using before[of y x] by simp
    with that show False by simp
  qed
  have s2: "sorted_wrt
     (\<lambda>x y. \<not> (statusLeft x \<in> set statusPriority \<and> statusLeft y \<notin> set statusPriority))
     (sortedAndFilteredOrders allOrders f ''status'' ''asc'')"
    by (rule sorted_wrt_mono_rel[OF _ srt]) (rule mono)
  show ?thesis
    using c[of a b] absent[of a] before[of a b] s2
      indexOf_present[of "statusLeft a" statusPriority] statusPriority_def
    by blast
qed

text \<open>
  Claim C4 at an order whose status \<^verbatim>\<open>Shipped\<close> is not in the list and one whose status is
  \<^verbatim>\<open>Printing\<close>.
\<close>

theorem status_sort_witness:
  "statusLeft order_unlisted \<notin> set statusPriority \<and> statusLeft order10 \<in> set statusPriority \<and>
   indexOf statusPriority (statusLeft order_unlisted) = - 1 \<and>
   indexOf statusPriority (statusLeft order10) = 1 \<and>
   compareFn ''status'' ''asc'' order_unlisted order10 = - 1 \<and>
   compareFn ''status'' ''asc'' order10 order_unlisted = 1"
proof -
  have a: "statusLeft order_unlisted \<notin> set statusPriority"
    by (simp add: order_unlisted_def statusPriority_def)
  have b: "statusLeft order10 \<in> set statusPriority"
    by (simp add: order10_def statusPriority_def)
  have i: "indexOf statusPriority (statusLeft order10) = 1"
    by (simp add: order10_def statusPriority_def)
  from status_sort[of order_unlisted order10 sample_orders defaultFilterState] a b i
  show ?thesis by simp
qed

section \<open>Properties of the query pipeline\<close>

lemma filteredOrders_sample: "filteredOrders sample_orders defaultFilterState = sample_orders"
  by (simp add: filteredOrders_def matches_def Object_entries_def defaultFilterState_def)

text \<open>
  Claim C7: the pipeline is a function of the orders, the filter state, the sort key and
  the direction alone, so two runs on the same inputs give the same sequence; its output
  is a rearrangement of the filtered input, sorted by the comparator, in which the orders
  that compare equal (the comparator returns 0) to any given order stand in the order they
  have in the input; and it is the only sequence with these three properties.
\<close>

theorem pipeline_stable:
  "mset (sortedAndFilteredOrders allOrders f k d) = mset (filteredOrders allOrders f) \<and>
   sorted_wrt (\<lambda>x y. compareFn k d x y \<le> 0) (sortedAndFilteredOrders allOrders f k d) \<and>
   filter (\<lambda>b. compareFn k d a b = 0) (sortedAndFilteredOrders allOrders f k d) =
     filter (\<lambda>b. compareFn k d a b = 0 \<and> matches b f) allOrders \<and>
   (mset ys = mset (filteredOrders allOrders f) \<and>
    sorted_wrt (\<lambda>x y. compareFn k d x y \<le> 0) ys \<and>
    (\<forall>a \<in> set ys. filter (\<lambda>b. compareFn k d a b = 0) ys =
                    filter (\<lambda>b. compareFn k d a b = 0) (filteredOrders allOrders f))
    \<longrightarrow> ys = sortedAndFilteredOrders allOrders f k d)"
proof -
  let ?cmp = "compareFn k d"
  let ?in = "filteredOrders allOrders f"
  let ?out = "sortedAndFilteredOrders allOrders f k d"
  have m: "mset ?out = mset ?in"
    by (simp add: sortedAndFilteredOrders_def mset_Array_sort)
  have s: "sorted_wrt (\<lambda>x y. ?cmp x y \<le> 0) ?out"
    unfolding sortedAndFilteredOrders_def
    by (rule sorted_Array_sort) (erule compareFn_total, erule (1) compareFn_trans)
  have st: "filter (\<lambda>b. ?cmp u b = 0) ?out = filter (\<lambda>b. ?cmp u b = 0) ?in" for u
    unfolding sortedAndFilteredOrders_def
  proof (rule filter_Array_sort)
    fix v w assume "?cmp u v = 0" "?cmp u w = 0"
    then have "?cmp v w = 0" by (rule compareFn_tie_class)
    then show "?cmp v w \<le> 0" by simp
  qed
  have "filter (\<lambda>b. ?cmp a b = 0) ?in = filter (\<lambda>b. ?cmp a b = 0 \<and> matches b f) allOrders"
    unfolding filteredOrders_def filter_filter by (rule filter_cong) auto
  with st[of a] have st': "filter (\<lambda>b. ?cmp a b = 0) ?out =
      filter (\<lambda>b. ?cmp a b = 0 \<and> matches b f) allOrders"
    by (rule trans)
  have u: "ys = ?out"
    if h1: "mset ys = mset ?in" and h2: "sorted_wrt (\<lambda>x y. ?cmp x y \<le> 0) ys"
      and h3: "\<forall>a \<in> set ys. filter (\<lambda>b. ?cmp a b = 0) ys = filter (\<lambda>b. ?cmp a b = 0) ?in"
  proof (rule stable_sorted_unique[where cmp = ?cmp])
    show "?cmp x x = 0" for x by (rule compareFn_refl)
    show "?cmp x y \<le> 0 \<Longrightarrow> ?cmp y x \<le> 0 \<Longrightarrow> ?cmp x y = 0" for x y
      by (rule compareFn_antisym)
    show "sorted_wrt (\<lambda>x y. ?cmp x y \<le> 0) ys" by (rule h2)
    show "sorted_wrt (\<lambda>x y. ?cmp x y \<le> 0) ?out" by (rule s)
    show "mset ys = mset ?out" using h1 m by simp
    show "\<forall>a \<in> set ys. filter (\<lambda>b. ?cmp a b = 0) ys = filter (\<lambda>b. ?cmp a b = 0) ?out"
      using h3 st by simp
  qed
  show ?thesis
  proof (intro conjI impI)
    show "mset ?out = mset ?in" by (rule m)
    show "sorted_wrt (\<lambda>x y. ?cmp x y \<le> 0) ?out" by (rule s)
    show "filter (\<lambda>b. ?cmp a b = 0) ?out = filter (\<lambda>b. ?cmp a b = 0 \<and> matches b f) allOrders"
      by (rule st')
    assume h: "mset ys = mset ?in \<and> sorted_wrt (\<lambda>x y. ?cmp x y \<le> 0) ys \<and>
      (\<forall>a \<in> set ys. filter (\<lambda>b. ?cmp a b = 0) ys = filter (\<lambda>b. ?cmp a b = 0) ?in)"
    show "ys = ?out"
      by (rule u) (use h in blast)+
  qed
qed

text \<open>
  Claim C7 on three orders sorted by \<^verbatim>\<open>daysSinceOrder\<close>: the two orders that are 10 days
  old keep their input order, after the one that is 3 days old.
\<close>

theorem pipeline_stable_witness:
  "sortedAndFilteredOrders sample_orders defaultFilterState ''daysSinceOrder'' ''asc'' =
     [order_unlisted, order10, order_open]"
proof -
  let ?ys = "[order_unlisted, order10, order_open]"
  let ?cmp = "compareFn ''daysSinceOrder'' ''asc''"
  have c: "?cmp x y = three_way (daysSinceOrder x) (daysSinceOrder y) ''asc''" for x y
    by (simp add: compareFn_def)
  have d: "daysSinceOrder order_unlisted = 3" "daysSinceOrder order10 = 10"
    "daysSinceOrder order_open = 10"
    by (simp_all add: order_unlisted_def order10_def order_open_def)
  have h1: "mset ?ys = mset (filteredOrders sample_orders defaultFilterState)"
    unfolding filteredOrders_sample by (simp add: sample_orders_def)
  have h2: "sorted_wrt (\<lambda>x y. ?cmp x y \<le> 0) ?ys"
    by (simp add: c d three_way_def)
  have h3: "\<forall>a \<in> set ?ys. filter (\<lambda>b. ?cmp a b = 0) ?ys =
      filter (\<lambda>b. ?cmp a b = 0) (filteredOrders sample_orders defaultFilterState)"
    unfolding filteredOrders_sample by (simp add: sample_orders_def c d three_way_def)
  note t = pipeline_stable[of sample_orders defaultFilterState "''daysSinceOrder''" "''asc''"
      order10 ?ys]
  have "?ys = sortedAndFilteredOrders sample_orders defaultFilterState ''daysSinceOrder'' ''asc''"
    by (rule t[THEN conjunct2, THEN conjunct2, THEN conjunct2, THEN mp]) (intro conjI h1 h2 h3)
  then show ?thesis by (rule sym)
qed

section \<open>Properties of the paginator\<close>

lemma pages_div: "pages data = (int (length data) + 9) div 10"
proof -
  have "\<lceil>real (length data) / 10\<rceil> = \<lceil>real_of_int (int (length data)) / real_of_int 10\<rceil>" by simp
  also have "\<dots> = - ((- int (length data)) div 10)" by (simp only: ceiling_divide_eq_div)
  also have "\<dots> = (int (length data) + 9) div 10" by linarith
  finally show ?thesis by (simp add: pages_def rowsPerPage_def)
qed

text \<open>
  Claim C2, as stated, fails on the empty sequence: the page count is 0, not at least 1.
\<close>

theorem pages_empty_counterexample: "\<not> 1 \<le> pages ([] :: Order list)"
  by (simp add: pages_def)

text \<open>
  Claim C2, amended: the page size is the constant 10, and the page count is the ceiling
  of the length divided by 10; it is 0 for the empty sequence and at least 1 for every
  other sequence.
\<close>

theorem pages_ceil:
  "pages data = \<lceil>real (length data) / 10\<rceil> \<and>
   pages data = (int (length data) + 9) div 10 \<and>
   (data = [] \<longrightarrow> pages data = 0) \<and>
   (data \<noteq> [] \<longrightarrow> 1 \<le> pages data)"
proof -
  have a: "pages data = \<lceil>real (length data) / 10\<rceil>" by (simp add: pages_def rowsPerPage_def)
  have b: "pages data = (int (length data) + 9) div 10" by (rule pages_div)
  have c: "data = [] \<longrightarrow> pages data = 0" by (auto simp: pages_def)
  have "0 < length data \<Longrightarrow> 1 \<le> (int (length data) + 9) div 10" by linarith
  then have d: "data \<noteq> [] \<longrightarrow> 1 \<le> pages data" by (simp add: b)
  from a b c d show ?thesis by blast
qed

text \<open>The amended claim C2 on 25 orders (3 pages) and on no order (0 pages).\<close>

theorem pages_ceil_witness:
  "pages (replicate 25 order10) = 3 \<and> replicate 25 order10 \<noteq> [] \<and>
   1 \<le> pages (replicate 25 order10) \<and> pages ([] :: Order list) = 0"
  using pages_ceil[of "replicate 25 order10"] pages_ceil[of "[] :: Order list"] by simp

text \<open>The window of a page: 10 items on page 1 of 25 orders, 5 on page 3, none beyond.\<close>

lemma paginatedData_25:
  "length (paginatedData (replicate 25 order10) 1) = 10"
  "length (paginatedData (replicate 25 order10) 3) = 5"
  "paginatedData (replicate 25 order10) 4 = []"
  by (simp_all add: paginatedData_def slice_def rowsPerPage_def)

section \<open>Properties of the preset store\<close>

lemma trim_empty_iff: "trim s = [] \<longleftrightarrow> list_all StrWhiteSpaceChar s"
proof -
  have "trim s = [] \<longleftrightarrow> (\<forall>x \<in> set (dropWhile StrWhiteSpaceChar s). StrWhiteSpaceChar x)"
    by (simp add: trim_def dropWhile_eq_Nil_conv)
  also have "\<dots> \<longleftrightarrow> dropWhile StrWhiteSpaceChar s = []"
  proof
    assume a: "\<forall>x \<in> set (dropWhile StrWhiteSpaceChar s). StrWhiteSpaceChar x"
    show "dropWhile StrWhiteSpaceChar s = []"
    proof (rule ccontr)
      assume ne: "dropWhile StrWhiteSpaceChar s \<noteq> []"
      then have "hd (dropWhile StrWhiteSpaceChar s) \<in> set (dropWhile StrWhiteSpaceChar s)"
        by (rule hd_in_set)
      moreover have "\<not> StrWhiteSpaceChar (hd (dropWhile StrWhiteSpaceChar s))"
        using ne by (rule hd_dropWhile)
      ultimately show False using a by blast
    qed
  next
    assume e: "dropWhile StrWhiteSpaceChar s = []"
    show "\<forall>x \<in> set (dropWhile StrWhiteSpaceChar s). StrWhiteSpaceChar x"
      unfolding e by simp
  qed
  also have "\<dots> \<longleftrightarrow> list_all StrWhiteSpaceChar s"
    by (simp only: dropWhile_eq_Nil_conv list_all_iff)
  finally show ?thesis .
qed

lemma savePreset_blank: "trim (App.name s) = [] \<Longrightarrow> savePreset stringify s = Inr s"
  by (simp add: savePreset_def)

lemma savePreset_named:
  assumes "trim (App.name s) \<noteq> []"
  shows "savePreset stringify s =
    Inr (s\<lparr>presets := filter (\<lambda>p. Preset.name p \<noteq> App.name s) (presets s) @
              [\<lparr>Preset.name = App.name s, Preset.filters = App.filters s,
                Preset.sortKey = App.sortKey s, Preset.sortDirection = App.sortDirection s\<rparr>],
            localStorage := (localStorage s)(''order-presets'' \<mapsto>
              stringify (filter (\<lambda>p. Preset.name p \<noteq> App.name s) (presets s) @
              [\<lparr>Preset.name = App.name s, Preset.filters = App.filters s,
                Preset.sortKey = App.sortKey s, Preset.sortDirection = App.sortDirection s\<rparr>])),
            name := []\<rparr>)"
  using assms by (simp add: savePreset_def Let_def)

text \<open>
  Claim C5, as stated, fails: on a blank name \<^verbatim>\<open>savePreset\<close> returns normally; it raises
  no \<open>ValidationError\<close>, nor any other error.
\<close>

theorem savePreset_blank_counterexample:
  "trim (App.name (app0\<lparr>name := ''  ''\<rparr>)) = [] \<and>
   savePreset example_stringify (app0\<lparr>name := ''  ''\<rparr>) \<noteq> Inl ValidationError"
  by (simp add: savePreset_def trim_def StrWhiteSpaceChar_def)

text \<open>
  Claim C5, amended: a name is blank (\<^verbatim>\<open>trim\<close> leaves nothing) iff it is empty or has only
  white space; on a blank name \<^verbatim>\<open>savePreset\<close> returns without an error and without any
  change, to the store or to the state; on every other name it succeeds, the collection
  then holds exactly one preset of that name, the new one, every preset of another name is
  kept in its order, the whole collection is written under the key \<^verbatim>\<open>order-presets\<close>, and
  no other key of the store changes.
\<close>

theorem savePreset_upsert:
  "(trim (App.name s) = [] \<longleftrightarrow> list_all StrWhiteSpaceChar (App.name s)) \<and>
   (trim (App.name s) = [] \<longrightarrow> savePreset stringify s = Inr s) \<and>
   (trim (App.name s) \<noteq> [] \<longrightarrow>
      (\<exists>s'. savePreset stringify s = Inr s' \<and>
         filter (\<lambda>p. Preset.name p = App.name s) (presets s') =
           [\<lparr>Preset.name = App.name s, Preset.filters = App.filters s,
             Preset.sortKey = App.sortKey s, Preset.sortDirection = App.sortDirection s\<rparr>] \<and>
         filter (\<lambda>p. Preset.name p \<noteq> App.name s) (presets s') =
           filter (\<lambda>p. Preset.name p \<noteq> App.name s) (presets s) \<and>
         localStorage s' ''order-presets'' = Some (stringify (presets s')) \<and>
         (\<forall>k. k \<noteq> ''order-presets'' \<longrightarrow> localStorage s' k = localStorage s k)))"
proof (intro conjI impI)
  show "trim (App.name s) = [] \<longleftrightarrow> list_all StrWhiteSpaceChar (App.name s)"
    by (rule trim_empty_iff)
  show "savePreset stringify s = Inr s" if "trim (App.name s) = []"
    using that by (rule savePreset_blank)
  show "\<exists>s'. savePreset stringify s = Inr s' \<and>
         filter (\<lambda>p. Preset.name p = App.name s) (presets s') =
           [\<lparr>Preset.name = App.name s, Preset.filters = App.filters s,
             Preset.sortKey = App.sortKey s, Preset.sortDirection = App.sortDirection s\<rparr>] \<and>
         filter (\<lambda>p. Preset.name p \<noteq> App.name s) (presets s') =
           filter (\<lambda>p. Preset.name p \<noteq> App.name s) (presets s) \<and>
         localStorage s' ''order-presets'' = Some (stringify (presets s')) \<and>
         (\<forall>k. k \<noteq> ''order-presets'' \<longrightarrow> localStorage s' k = localStorage s k)"
    if "trim (App.name s) \<noteq> []"
    by (subst savePreset_named[OF that]) simp
qed

text \<open>The amended claim C5 on a name of two spaces and on the name \<^verbatim>\<open>A\<close>.\<close>

theorem savePreset_upsert_witness:
  "trim ''  '' = [] \<and>
   savePreset example_stringify (app0\<lparr>presets := [presetA, presetB], name := ''  ''\<rparr>) =
     Inr (app0\<lparr>presets := [presetA, presetB], name := ''  ''\<rparr>) \<and>
   trim ''A'' \<noteq> [] \<and>
   (\<exists>s'. savePreset example_stringify
           (app0\<lparr>presets := [presetA, presetB], name := ''A'', filters := filtersX\<rparr>) = Inr s' \<and>
         filter (\<lambda>p. Preset.name p = ''A'') (presets s') =
           [\<lparr>Preset.name = ''A'', Preset.filters = filtersX,
             Preset.sortKey = ''oid'', Preset.sortDirection = ''asc''\<rparr>] \<and>
         filter (\<lambda>p. Preset.name p \<noteq> ''A'') (presets s') = [presetB] \<and>
         localStorage s' ''order-presets'' = Some (example_stringify (presets s')))"
proof -
  have b: "trim ''  '' = []" by (simp add: trim_def StrWhiteSpaceChar_def)
  have n: "trim ''A'' \<noteq> []" by (simp add: trim_def StrWhiteSpaceChar_def)
  note t1 = savePreset_upsert[of "app0\<lparr>presets := [presetA, presetB], name := ''  ''\<rparr>"
      example_stringify]
  note t2 = savePreset_upsert[of
      "app0\<lparr>presets := [presetA, presetB], name := ''A'', filters := filtersX\<rparr>"
      example_stringify]
  have 1: "savePreset example_stringify (app0\<lparr>presets := [presetA, presetB], name := ''  ''\<rparr>) =
     Inr (app0\<lparr>presets := [presetA, presetB], name := ''  ''\<rparr>)"
    by (rule t1[THEN conjunct2, THEN conjunct1, THEN mp]) (simp add: b)
  have 2: "\<exists>s'. savePreset example_stringify
           (app0\<lparr>presets := [presetA, presetB], name := ''A'', filters := filtersX\<rparr>) = Inr s' \<and>
         filter (\<lambda>p. Preset.name p = ''A'') (presets s') =
           [\<lparr>Preset.name = ''A'', Preset.filters = filtersX,
             Preset.sortKey = ''oid'', Preset.sortDirection = ''asc''\<rparr>] \<and>
         filter (\<lambda>p. Preset.name p \<noteq> ''A'') (presets s') = [presetB] \<and>
         localStorage s' ''order-presets'' = Some (example_stringify (presets s'))"
  proof -
    from t2[THEN conjunct2, THEN conjunct2, THEN mp] n obtain s' where s':
      "savePreset example_stringify
           (app0\<lparr>presets := [presetA, presetB], name := ''A'', filters := filtersX\<rparr>) = Inr s'"
      "filter (\<lambda>p. Preset.name p = ''A'') (presets s') =
           [\<lparr>Preset.name = ''A'', Preset.filters = filtersX,
             Preset.sortKey = ''oid'', Preset.sortDirection = ''asc''\<rparr>]"
      "filter (\<lambda>p. Preset.name p \<noteq> ''A'') (presets s') = [presetB]"
      "localStorage s' ''order-presets'' = Some (example_stringify (presets s'))"
      by (auto simp: app0_def presetA_def presetB_def)
    then show ?thesis by blast
  qed
  from b n 1 2 show ?thesis by blast
qed

text \<open>
  Claim C10, as stated, fails for a blank name that the list has (a list read from the
  store may have one): \<^verbatim>\<open>savePreset\<close> returns at once, the old entry stays where it is, no
  preset is appended and nothing is written to the store.
\<close>

theorem savePreset_present_blank_counterexample:
  "App.name (app0\<lparr>presets := [presetBlank, presetB], name := ''  '', filters := filtersX\<rparr>)
     \<in> Preset.name ` set (presets
         (app0\<lparr>presets := [presetBlank, presetB], name := ''  '', filters := filtersX\<rparr>)) \<and>
   savePreset example_stringify
       (app0\<lparr>presets := [presetBlank, presetB], name := ''  '', filters := filtersX\<rparr>) =
     Inr (app0\<lparr>presets := [presetBlank, presetB], name := ''  '', filters := filtersX\<rparr>) \<and>
   hd (presets (app0\<lparr>presets := [presetBlank, presetB], name := ''  '', filters := filtersX\<rparr>)) =
     presetBlank \<and>
   last (presets (app0\<lparr>presets := [presetBlank, presetB], name := ''  '', filters := filtersX\<rparr>)) \<noteq>
     \<lparr>Preset.name = ''  '', Preset.filters = filtersX, Preset.sortKey = ''oid'',
      Preset.sortDirection = ''asc''\<rparr> \<and>
   localStorage (app0\<lparr>presets := [presetBlank, presetB], name := ''  '', filters := filtersX\<rparr>)
     ''order-presets'' = None"
proof -
  have t: "trim ''  '' = []" by (simp add: trim_def StrWhiteSpaceChar_def)
  have s: "savePreset example_stringify
       (app0\<lparr>presets := [presetBlank, presetB], name := ''  '', filters := filtersX\<rparr>) =
     Inr (app0\<lparr>presets := [presetBlank, presetB], name := ''  '', filters := filtersX\<rparr>)"
    by (simp add: savePreset_def t)
  show ?thesis
    by (simp add: s) (simp add: presetBlank_def presetB_def app0_def)
qed

text \<open>
  Claim C10, amended: saving under a name that is not blank and that the list already has
  removes the old entry and puts the new preset at the end; the presets before it are the
  other presets, in the order they had, and the list does not grow; the list so reordered
  is the one written to the store under \<^verbatim>\<open>order-presets\<close>, and no other key changes.
\<close>

theorem savePreset_moves_to_end:
  "App.name s \<in> Preset.name ` set (presets s) \<and> trim (App.name s) \<noteq> [] \<longrightarrow>
     (\<exists>s'. savePreset stringify s = Inr s' \<and>
        presets s' \<noteq> [] \<and>
        last (presets s') =
          \<lparr>Preset.name = App.name s, Preset.filters = App.filters s,
           Preset.sortKey = App.sortKey s, Preset.sortDirection = App.sortDirection s\<rparr> \<and>
        butlast (presets s') = filter (\<lambda>p. Preset.name p \<noteq> App.name s) (presets s) \<and>
        App.name s \<notin> Preset.name ` set (butlast (presets s')) \<and>
        length (presets s') \<le> length (presets s) \<and>
        localStorage s' ''order-presets'' = Some (stringify (presets s')) \<and>
        (\<forall>k. k \<noteq> ''order-presets'' \<longrightarrow> localStorage s' k = localStorage s k))"
proof
  assume h: "App.name s \<in> Preset.name ` set (presets s) \<and> trim (App.name s) \<noteq> []"
  then have n: "trim (App.name s) \<noteq> []" by simp
  from h obtain q where q: "q \<in> set (presets s)" "Preset.name q = App.name s" by auto
  have "length (filter (\<lambda>p. Preset.name p \<noteq> App.name s) (presets s)) < length (presets s)"
    using q by (intro length_filter_less[of q]) auto
  then show "\<exists>s'. savePreset stringify s = Inr s' \<and>
        presets s' \<noteq> [] \<and>
        last (presets s') =
          \<lparr>Preset.name = App.name s, Preset.filters = App.filters s,
           Preset.sortKey = App.sortKey s, Preset.sortDirection = App.sortDirection s\<rparr> \<and>
        butlast (presets s') = filter (\<lambda>p. Preset.name p \<noteq> App.name s) (presets s) \<and>
        App.name s \<notin> Preset.name ` set (butlast (presets s')) \<and>
        length (presets s') \<le> length (presets s) \<and>
        localStorage s' ''order-presets'' = Some (stringify (presets s')) \<and>
        (\<forall>k. k \<noteq> ''order-presets'' \<longrightarrow> localStorage s' k = localStorage s k)"
    by (subst savePreset_named[OF n]) auto
qed

text \<open>
  The amended claim C10 on the list \<^verbatim>\<open>[A, B]\<close>: saving \<^verbatim>\<open>A\<close> again gives \<^verbatim>\<open>[B, A]\<close>, in
  the state and in the store.
\<close>

theorem savePreset_moves_to_end_witness:
  "''A'' \<in> Preset.name ` set [presetA, presetB] \<and> trim ''A'' \<noteq> [] \<and>
   (\<exists>s'. savePreset example_stringify
            (app0\<lparr>presets := [presetA, presetB], name := ''A'', filters := filtersX\<rparr>) = Inr s' \<and>
      presets s' = [presetB, \<lparr>Preset.name = ''A'', Preset.filters = filtersX,
             Preset.sortKey = ''oid'', Preset.sortDirection = ''asc''\<rparr>] \<and>
      localStorage s' ''order-presets'' = Some (example_stringify (presets s')))"
proof -
  have n: "trim ''A'' \<noteq> []" by (simp add: trim_def StrWhiteSpaceChar_def)
  have m: "''A'' \<in> Preset.name ` set [presetA, presetB]" by (simp add: presetA_def)
  note t = savePreset_moves_to_end[of
      "app0\<lparr>presets := [presetA, presetB], name := ''A'', filters := filtersX\<rparr>"
      example_stringify]
  have "\<exists>s'. savePreset example_stringify
            (app0\<lparr>presets := [presetA, presetB], name := ''A'', filters := filtersX\<rparr>) = Inr s' \<and>
      presets s' = [presetB, \<lparr>Preset.name = ''A'', Preset.filters = filtersX,
             Preset.sortKey = ''oid'', Preset.sortDirection = ''asc''\<rparr>] \<and>
      localStorage s' ''order-presets'' = Some (example_stringify (presets s'))"
  proof -
    from t n m obtain s' where s':
      "savePreset example_stringify
            (app0\<lparr>presets := [presetA, presetB], name := ''A'', filters := filtersX\<rparr>) = Inr s'"
      "presets s' \<noteq> []"
      "last (presets s') = \<lparr>Preset.name = ''A'', Preset.filters = filtersX,
             Preset.sortKey = ''oid'', Preset.sortDirection = ''asc''\<rparr>"
      "butlast (presets s') = [presetB]"
      "localStorage s' ''order-presets'' = Some (example_stringify (presets s'))"
      by (auto simp: app0_def presetA_def presetB_def)
    from s'(2) have "presets s' = butlast (presets s') @ [last (presets s')]" by simp
    with s' show ?thesis by simp
  qed
  with n m show ?thesis by blast
qed

lemma find_filter_snoc:
  "find (\<lambda>q. f q = n) (filter (\<lambda>q. f q \<noteq> n) ps @ [p]) = (if f p = n then Some p else None)"
  by (induction ps) auto

lemma trim_nonempty: "trim n \<noteq> [] \<Longrightarrow> n \<noteq> []"
  by (auto simp: trim_def)

text \<open>
  Claim C6: after a save under a name that is not blank, the collection holds under that
  name a preset with the filter state, the sort key and the sort direction that were
  saved, and loading it sets the three to these values, whatever they were changed to in
  between. The same holds across a reload of the page, where the collection is read back
  from the store, provided the text that \<^verbatim>\<open>JSON.stringify\<close> wrote is not empty and
  \<^verbatim>\<open>JSON.parse\<close> reads it back to the value written (the round trip of the runtime's
  JSON functions).
\<close>

theorem save_load_roundtrip:
  "trim (App.name s) \<noteq> [] \<longrightarrow>
     (\<exists>s' p. savePreset stringify s = Inr s' \<and>
        presets s' = filter (\<lambda>q. Preset.name q \<noteq> App.name s) (presets s) @ [p] \<and>
        find (\<lambda>q. Preset.name q = App.name s) (presets s') = Some p \<and>
        Preset.name p = App.name s \<and> Preset.filters p = App.filters s \<and>
        Preset.sortKey p = App.sortKey s \<and> Preset.sortDirection p = App.sortDirection s \<and>
        App.filters (loadPreset p (s'\<lparr>filters := g, sortKey := k, sortDirection := d\<rparr>)) =
          App.filters s \<and>
        App.sortKey (loadPreset p (s'\<lparr>filters := g, sortKey := k, sortDirection := d\<rparr>)) =
          App.sortKey s \<and>
        App.sortDirection (loadPreset p (s'\<lparr>filters := g, sortKey := k, sortDirection := d\<rparr>)) =
          App.sortDirection s \<and>
        (stringify (presets s') \<noteq> [] \<and> parse (stringify (presets s')) = Some (presets s') \<longrightarrow>
           (\<exists>t'. loadPresetsEffect parse (t\<lparr>localStorage := localStorage s'\<rparr>) = Inr t' \<and>
                 presets t' = presets s') \<and>
           App.filters (loadSavedEffect parse parseFilters allOrders
               (t\<lparr>localStorage := localStorage (loadPreset p s')\<rparr>)) = App.filters s \<and>
           App.sortKey (loadSavedEffect parse parseFilters allOrders
               (t\<lparr>localStorage := localStorage (loadPreset p s')\<rparr>)) = App.sortKey s \<and>
           App.sortDirection (loadSavedEffect parse parseFilters allOrders
               (t\<lparr>localStorage := localStorage (loadPreset p s')\<rparr>)) = App.sortDirection s \<and>
           activePresetName (loadSavedEffect parse parseFilters allOrders
               (t\<lparr>localStorage := localStorage (loadPreset p s')\<rparr>)) = Some (App.name s)))"
proof
  assume n: "trim (App.name s) \<noteq> []"
  define p where "p = \<lparr>Preset.name = App.name s, Preset.filters = App.filters s,
      Preset.sortKey = App.sortKey s, Preset.sortDirection = App.sortDirection s\<rparr>"
  define ps where "ps = filter (\<lambda>q. Preset.name q \<noteq> App.name s) (presets s) @ [p]"
  define s' where "s' = s\<lparr>presets := ps,
      localStorage := (localStorage s)(''order-presets'' \<mapsto> stringify ps), name := []\<rparr>"
  have sv: "savePreset stringify s = Inr s'"
    by (simp add: savePreset_named[OF n] s'_def ps_def p_def)
  have pr: "presets s' = ps" by (simp add: s'_def)
  have fd: "find (\<lambda>q. Preset.name q = App.name s) ps = Some p"
    unfolding ps_def by (simp add: find_filter_snoc p_def)
  have ne: "App.name s \<noteq> []" using n by (rule trim_nonempty)
  have flds: "Preset.name p = App.name s" "Preset.filters p = App.filters s"
    "Preset.sortKey p = App.sortKey s" "Preset.sortDirection p = App.sortDirection s"
    by (simp_all add: p_def)
  have ld: "App.filters (loadPreset p (s'\<lparr>filters := g, sortKey := k, sortDirection := d\<rparr>)) =
          App.filters s"
    "App.sortKey (loadPreset p (s'\<lparr>filters := g, sortKey := k, sortDirection := d\<rparr>)) =
          App.sortKey s"
    "App.sortDirection (loadPreset p (s'\<lparr>filters := g, sortKey := k, sortDirection := d\<rparr>)) =
          App.sortDirection s"
    by (simp_all add: loadPreset_def flds)
  have st1: "localStorage s' ''order-presets'' = Some (stringify ps)" by (simp add: s'_def)
  have st2: "localStorage (loadPreset p s') ''order-presets'' = Some (stringify ps)"
    "localStorage (loadPreset p s') ''active-order-preset'' = Some (App.name s)"
    by (simp_all add: loadPreset_def s'_def flds)
  have reload: "(\<exists>t'. loadPresetsEffect parse (t\<lparr>localStorage := localStorage s'\<rparr>) = Inr t' \<and>
                 presets t' = presets s') \<and>
           App.filters (loadSavedEffect parse parseFilters allOrders
               (t\<lparr>localStorage := localStorage (loadPreset p s')\<rparr>)) = App.filters s \<and>
           App.sortKey (loadSavedEffect parse parseFilters allOrders
               (t\<lparr>localStorage := localStorage (loadPreset p s')\<rparr>)) = App.sortKey s \<and>
           App.sortDirection (loadSavedEffect parse parseFilters allOrders
               (t\<lparr>localStorage := localStorage (loadPreset p s')\<rparr>)) = App.sortDirection s \<and>
           activePresetName (loadSavedEffect parse parseFilters allOrders
               (t\<lparr>localStorage := localStorage (loadPreset p s')\<rparr>)) = Some (App.name s)"
    if h: "stringify (presets s') \<noteq> [] \<and> parse (stringify (presets s')) = Some (presets s')"
  proof -
    from h pr have h1: "stringify ps \<noteq> []" and h2: "parse (stringify ps) = Some ps" by simp_all
    have a: "loadPresetsEffect parse (t\<lparr>localStorage := localStorage s'\<rparr>) =
        Inr (t\<lparr>localStorage := localStorage s', presets := ps\<rparr>)"
      by (simp add: loadPresetsEffect_def st1 h1 h2)
    have b: "activePreset parse (t\<lparr>localStorage := localStorage (loadPreset p s')\<rparr>) = Inr (Some p)"
      by (simp add: activePreset_def st2 h1 h2 ne fd)
    have c: "loadSavedEffect parse parseFilters allOrders
               (t\<lparr>localStorage := localStorage (loadPreset p s')\<rparr>) =
             t\<lparr>localStorage := localStorage (loadPreset p s'),
               filters := Preset.filters p, sortKey := Preset.sortKey p,
               sortDirection := Preset.sortDirection p,
               activePresetName := Some (Preset.name p), loading := False\<rparr>"
      by (simp add: loadSavedEffect_def loadSaved_try_def b)
    show ?thesis
      by (simp add: a c pr flds)
  qed
  show "\<exists>s' p. savePreset stringify s = Inr s' \<and>
        presets s' = filter (\<lambda>q. Preset.name q \<noteq> App.name s) (presets s) @ [p] \<and>
        find (\<lambda>q. Preset.name q = App.name s) (presets s') = Some p \<and>
        Preset.name p = App.name s \<and> Preset.filters p = App.filters s \<and>
        Preset.sortKey p = App.sortKey s \<and> Preset.sortDirection p = App.sortDirection s \<and>
        App.filters (loadPreset p (s'\<lparr>filters := g, sortKey := k, sortDirection := d\<rparr>)) =
          App.filters s \<and>
        App.sortKey (loadPreset p (s'\<lparr>filters := g, sortKey := k, sortDirection := d\<rparr>)) =
          App.sortKey s \<and>
        App.sortDirection (loadPreset p (s'\<lparr>filters := g, sortKey := k, sortDirection := d\<rparr>)) =
          App.sortDirection s \<and>
        (stringify (presets s') \<noteq> [] \<and> parse (stringify (presets s')) = Some (presets s') \<longrightarrow>
           (\<exists>t'. loadPresetsEffect parse (t\<lparr>localStorage := localStorage s'\<rparr>) = Inr t' \<and>
                 presets t' = presets s') \<and>
           App.filters (loadSavedEffect parse parseFilters allOrders
               (t\<lparr>localStorage := localStorage (loadPreset p s')\<rparr>)) = App.filters s \<and>
           App.sortKey (loadSavedEffect parse parseFilters allOrders
               (t\<lparr>localStorage := localStorage (loadPreset p s')\<rparr>)) = App.sortKey s \<and>
           App.sortDirection (loadSavedEffect parse parseFilters allOrders
               (t\<lparr>localStorage := localStorage (loadPreset p s')\<rparr>)) = App.sortDirection s \<and>
           activePresetName (loadSavedEffect parse parseFilters allOrders
               (t\<lparr>localStorage := localStorage (loadPreset p s')\<rparr>)) = Some (App.name s))"
  proof (rule exI[of _ s'], rule exI[of _ p], intro conjI)
    show "savePreset stringify s = Inr s'" by (rule sv)
    show "presets s' = filter (\<lambda>q. Preset.name q \<noteq> App.name s) (presets s) @ [p]"
      by (simp add: pr ps_def)
    show "find (\<lambda>q. Preset.name q = App.name s) (presets s') = Some p"
      by (simp add: pr fd)
  qed (use flds ld reload in blast)+
qed

text \<open>
  Claim C6 for the name \<^verbatim>\<open>X\<close>, the sort key \<^verbatim>\<open>oid\<close> and the direction \<^verbatim>\<open>asc\<close>.
\<close>

theorem save_load_roundtrip_witness:
  "trim ''X'' \<noteq> [] \<and>
   (\<exists>s' p. savePreset example_stringify (app0\<lparr>name := ''X'', filters := filtersX\<rparr>) = Inr s' \<and>
      find (\<lambda>q. Preset.name q = ''X'') (presets s') = Some p \<and>
      Preset.filters p = filtersX \<and> Preset.sortKey p = ''oid'' \<and>
      Preset.sortDirection p = ''asc'' \<and>
      App.filters (loadPreset p
         (s'\<lparr>filters := defaultFilterState, sortKey := ''customer'', sortDirection := ''desc''\<rparr>)) =
        filtersX \<and>
      App.filters (loadSavedEffect (map_of [(example_stringify [presetX], [presetX])])
         (\<lambda>r. None) sample_orders (app0\<lparr>localStorage := localStorage (loadPreset p s')\<rparr>)) =
        filtersX \<and>
      App.sortKey (loadSavedEffect (map_of [(example_stringify [presetX], [presetX])])
         (\<lambda>r. None) sample_orders (app0\<lparr>localStorage := localStorage (loadPreset p s')\<rparr>)) =
        ''oid'')"
proof -
  let ?s = "app0\<lparr>name := ''X'', filters := filtersX\<rparr>"
  let ?parse = "map_of [(example_stringify [presetX], [presetX])]"
  have n: "trim (App.name ?s) \<noteq> []" by (simp add: trim_def StrWhiteSpaceChar_def)
  have n': "trim ''X'' \<noteq> []" by (simp add: trim_def StrWhiteSpaceChar_def)
  note t = save_load_roundtrip[where s = ?s and stringify = example_stringify
      and g = defaultFilterState and k = "''customer''" and d = "''desc''" and parse = ?parse
      and t = app0 and parseFilters = "\<lambda>r. None" and allOrders = sample_orders, THEN mp, OF n]
  from t obtain s' p where
    sv: "savePreset example_stringify ?s = Inr s'"
    and ps: "presets s' = filter (\<lambda>q. Preset.name q \<noteq> App.name ?s) (presets ?s) @ [p]"
    and fd: "find (\<lambda>q. Preset.name q = App.name ?s) (presets s') = Some p"
    and f1: "Preset.name p = App.name ?s" and f2: "Preset.filters p = App.filters ?s"
    and f3: "Preset.sortKey p = App.sortKey ?s"
    and f4: "Preset.sortDirection p = App.sortDirection ?s"
    and ld: "App.filters (loadPreset p
         (s'\<lparr>filters := defaultFilterState, sortKey := ''customer'', sortDirection := ''desc''\<rparr>)) =
        App.filters ?s"
    and rl: "example_stringify (presets s') \<noteq> [] \<and>
        ?parse (example_stringify (presets s')) = Some (presets s') \<longrightarrow>
           (\<exists>t'. loadPresetsEffect ?parse (app0\<lparr>localStorage := localStorage s'\<rparr>) = Inr t' \<and>
                 presets t' = presets s') \<and>
           App.filters (loadSavedEffect ?parse (\<lambda>r. None) sample_orders
               (app0\<lparr>localStorage := localStorage (loadPreset p s')\<rparr>)) = App.filters ?s \<and>
           App.sortKey (loadSavedEffect ?parse (\<lambda>r. None) sample_orders
               (app0\<lparr>localStorage := localStorage (loadPreset p s')\<rparr>)) = App.sortKey ?s \<and>
           App.sortDirection (loadSavedEffect ?parse (\<lambda>r. None) sample_orders
               (app0\<lparr>localStorage := localStorage (loadPreset p s')\<rparr>)) = App.sortDirection ?s \<and>
           activePresetName (loadSavedEffect ?parse (\<lambda>r. None) sample_orders
               (app0\<lparr>localStorage := localStorage (loadPreset p s')\<rparr>)) = Some (App.name ?s)"
    by blast
  have px: "p = presetX"
    using f1 f2 f3 f4 by (simp add: presetX_def app0_def)
  have pl: "presets s' = [presetX]" using ps px by (simp add: app0_def)
  have hyp: "example_stringify (presets s') \<noteq> [] \<and>
        ?parse (example_stringify (presets s')) = Some (presets s')"
    unfolding pl by (simp add: example_stringify_def)
  from rl[THEN mp, OF hyp] have
    r1: "App.filters (loadSavedEffect ?parse (\<lambda>r. None) sample_orders
               (app0\<lparr>localStorage := localStorage (loadPreset p s')\<rparr>)) = App.filters ?s"
    and r2: "App.sortKey (loadSavedEffect ?parse (\<lambda>r. None) sample_orders
               (app0\<lparr>localStorage := localStorage (loadPreset p s')\<rparr>)) = App.sortKey ?s"
    by blast+
  have e: "App.name ?s = ''X''" "App.filters ?s = filtersX" "App.sortKey ?s = ''oid''"
    "App.sortDirection ?s = ''asc''"
    by (simp_all add: app0_def)
  show ?thesis
  proof (intro conjI, rule n', rule exI[of _ s'], rule exI[of _ p], intro conjI)
    show "savePreset example_stringify ?s = Inr s'" by (rule sv)
    show "find (\<lambda>q. Preset.name q = ''X'') (presets s') = Some p" using fd e by simp
    show "Preset.filters p = filtersX" using f2 e by simp
    show "Preset.sortKey p = ''oid''" using f3 e by simp
    show "Preset.sortDirection p = ''asc''" using f4 e by simp
    show "App.filters (loadPreset p
         (s'\<lparr>filters := defaultFilterState, sortKey := ''customer'', sortDirection := ''desc''\<rparr>)) =
        filtersX" using ld e by simp
    show "App.filters (loadSavedEffect ?parse (\<lambda>r. None) sample_orders
        (app0\<lparr>localStorage := localStorage (loadPreset p s')\<rparr>)) = filtersX"
      using r1 e by simp
    show "App.sortKey (loadSavedEffect ?parse (\<lambda>r. None) sample_orders
        (app0\<lparr>localStorage := localStorage (loadPreset p s')\<rparr>)) = ''oid''"
      using r2 e by simp
  qed
qed

section \<open>Reading a corrupted store\<close>

text \<open>The effect of the home page catches the failure and leaves the state as it was.\<close>

lemma loadSavedEffect_recovers:
  "localStorage s ''order-presets'' = Some saved \<Longrightarrow> saved \<noteq> [] \<Longrightarrow>
   localStorage s ''active-order-preset'' = Some active \<Longrightarrow> active \<noteq> [] \<Longrightarrow>
   parse saved = None \<Longrightarrow>
   loadSavedEffect parse parseFilters allOrders s = s\<lparr>loading := False\<rparr>"
  by (simp add: loadSavedEffect_def loadSaved_try_def activePreset_def)

text \<open>
  Claim C3 fails on the preset manager: when the text stored under \<^verbatim>\<open>order-presets\<close> is
  not JSON, its effect on mount ends with the \<^verbatim>\<open>SyntaxError\<close> of \<^verbatim>\<open>JSON.parse\<close>; the
  preset list is not set to the empty list.
\<close>

theorem loadPresetsEffect_throws:
  "localStorage s ''order-presets'' = Some saved \<and> saved \<noteq> [] \<and> parse saved = None \<longrightarrow>
     loadPresetsEffect parse s = Inl SyntaxError"
  by (simp add: loadPresetsEffect_def)

text \<open>The failure on the stored text \<^verbatim>\<open>{oops\<close>.\<close>

theorem loadPresetsEffect_throws_witness:
  "map_of [(''[]'', [])] ''{oops'' = None \<and>
   loadPresetsEffect (map_of [(''[]'', [])])
     (app0\<lparr>localStorage := [''order-presets'' \<mapsto> ''{oops'']\<rparr>) = Inl SyntaxError"
  using loadPresetsEffect_throws[of "app0\<lparr>localStorage := [''order-presets'' \<mapsto> ''{oops'']\<rparr>"
      "''{oops''" "map_of [(''[]'', [])]"]
  by simp

section \<open>The page number after a change of the filters\<close>

text \<open>Four handlers of the table reset the page to 1.\<close>

lemma handlers_reset_page:
  "page (handleToggleOption key option s) = 1" "page (selectAll key options s) = 1"
  "page (clearFilter key s) = 1" "page (handleAllSelect uv s) = 1"
  by (simp_all add: handleToggleOption_def selectAll_def clearFilter_def handleAllSelect_def Let_def)

text \<open>The handler of "Clear Selection" and \<^verbatim>\<open>loadPreset\<close> leave the page as it is.\<close>

lemma page_not_reset:
  "page (clearSelection s) = page s" "page (loadPreset p s) = page s"
  by (simp_all add: clearSelection_def loadPreset_def)

text \<open>
  Claim C9 fails for clearing all fields and for loading a preset: on page 3, both change
  the filters and the page is still 3.
\<close>

theorem clearSelection_page_stays:
  "App.filters (app0\<lparr>filters := filtersX, page := 3\<rparr>) \<noteq>
     App.filters (clearSelection (app0\<lparr>filters := filtersX, page := 3\<rparr>)) \<and>
   page (clearSelection (app0\<lparr>filters := filtersX, page := 3\<rparr>)) = 3 \<and>
   App.filters (app0\<lparr>page := 3\<rparr>) \<noteq> App.filters (loadPreset presetB (app0\<lparr>page := 3\<rparr>)) \<and>
   page (loadPreset presetB (app0\<lparr>page := 3\<rparr>)) = 3"
  by (simp add: clearSelection_def loadPreset_def app0_def filtersX_def presetB_def
      defaultFilterState_def)

section \<open>Properties of the unique values\<close>

lemma new_Set_snoc: "new_Set (xs @ [x]) = Set_add (new_Set xs) x"
  by (simp add: new_Set_def)

lemma set_new_Set: "set (new_Set xs) = set xs"
proof (induction xs rule: rev_induct)
  case Nil
  show ?case by (simp add: new_Set_def)
next
  case (snoc x xs)
  then show ?case by (auto simp: new_Set_snoc Set_add_def)
qed

lemma distinct_new_Set: "distinct (new_Set xs)"
proof (induction xs rule: rev_induct)
  case Nil
  show ?case by (simp add: new_Set_def)
next
  case (snoc x xs)
  then show ?case by (simp add: new_Set_snoc Set_add_def)
qed

text \<open>
  First-seen order: the result holds, in their order, the elements at the positions where
  an element occurs for the first time.
\<close>

lemma new_Set_first_seen:
  "new_Set xs = map (\<lambda>i. xs ! i) (filter (\<lambda>i. xs ! i \<notin> set (take i xs)) [0..<length xs])"
proof (induction xs rule: rev_induct)
  case Nil
  show ?case by (simp add: new_Set_def)
next
  case (snoc x xs)
  let ?P = "\<lambda>ys i. ys ! i \<notin> set (take i ys)"
  have f: "filter (?P (xs @ [x])) [0..<length xs] = filter (?P xs) [0..<length xs]"
    by (rule filter_cong) (auto simp: nth_append)
  have m: "map (\<lambda>i. (xs @ [x]) ! i) (filter (?P xs) [0..<length xs]) =
           map (\<lambda>i. xs ! i) (filter (?P xs) [0..<length xs])"
    by (rule map_cong) (auto simp: nth_append)
  have l: "map (\<lambda>i. (xs @ [x]) ! i) (filter (?P (xs @ [x])) [length xs]) =
           (if x \<in> set xs then [] else [x])"
    by simp
  have "[0..<length (xs @ [x])] = [0..<length xs] @ [length xs]" by simp
  then have "map (\<lambda>i. (xs @ [x]) ! i) (filter (?P (xs @ [x])) [0..<length (xs @ [x])]) =
        map (\<lambda>i. (xs @ [x]) ! i) (filter (?P (xs @ [x])) [0..<length xs]) @
        map (\<lambda>i. (xs @ [x]) ! i) (filter (?P (xs @ [x])) [length xs])"
    by (simp only: filter_append map_append)
  also have "\<dots> = map (\<lambda>i. xs ! i) (filter (?P xs) [0..<length xs]) @
        (if x \<in> set xs then [] else [x])"
    by (simp only: f m l)
  also have "\<dots> = new_Set xs @ (if x \<in> set xs then [] else [x])"
    by (simp only: snoc.IH)
  also have "\<dots> = new_Set (xs @ [x])"
    by (simp add: new_Set_snoc Set_add_def set_new_Set)
  finally show ?case by (rule sym)
qed

text \<open>
  For \<^verbatim>\<open>type\<close>, \<^verbatim>\<open>lock\<close>, \<^verbatim>\<open>customer\<close>, \<^verbatim>\<open>model\<close> and \<^verbatim>\<open>designer\<close> the options are
  the distinct non-empty values in first-seen order.
\<close>

lemma getUnique_spec:
  "distinct (getUnique key allOrders) \<and>
   set (getUnique key allOrders) = key ` set allOrders - {''''} \<and>
   getUnique key allOrders =
     filter (\<lambda>v. v \<noteq> '''')
       (map (\<lambda>i. map key allOrders ! i)
          (filter (\<lambda>i. map key allOrders ! i \<notin> set (take i (map key allOrders)))
             [0..<length allOrders]))"
proof (intro conjI)
  show "distinct (getUnique key allOrders)"
    by (simp add: getUnique_def distinct_new_Set)
  show "set (getUnique key allOrders) = key ` set allOrders - {''''}"
    by (auto simp: getUnique_def set_new_Set)
  show "getUnique key allOrders =
     filter (\<lambda>v. v \<noteq> '''')
       (map (\<lambda>i. map key allOrders ! i)
          (filter (\<lambda>i. map key allOrders ! i \<notin> set (take i (map key allOrders)))
             [0..<length allOrders]))"
    using new_Set_first_seen[of "map key allOrders"] by (simp add: getUnique_def)
qed

lemma allStatuses_spec:
  "distinct (allStatuses allOrders) \<and>
   set (allStatuses allOrders) = statusLeft ` set allOrders \<union> statusRight ` set allOrders"
  by (auto simp: allStatuses_def distinct_new_Set set_new_Set)

lemma getOptionsForKey_uniqueValues:
  "getOptionsForKey (uniqueValues allOrders) K_days = [''<5'', ''<15'', ''<30'', ''<60'']"
  "getOptionsForKey (uniqueValues allOrders) K_status = allStatuses allOrders"
  "getOptionsForKey (uniqueValues allOrders) K_type = getUnique Order.type allOrders"
  "getOptionsForKey (uniqueValues allOrders) K_lock = getUnique Order.lock allOrders"
  "getOptionsForKey (uniqueValues allOrders) K_customer = getUnique Order.customer allOrders"
  "getOptionsForKey (uniqueValues allOrders) K_model = getUnique Order.model allOrders"
  "getOptionsForKey (uniqueValues allOrders) K_designer = getUnique Order.designer allOrders"
  by (simp_all add: getOptionsForKey_def uniqueValues_def or_empty_def DAYS_FILTER_OPTIONS_def)

text \<open>
  Claim C8 fails for the status field: the merged statuses are not filtered, so an empty
  \<^verbatim>\<open>statusLeft\<close> or \<^verbatim>\<open>statusRight\<close> of some order is one of the options.
\<close>

theorem status_options_keep_empty:
  "'''' \<in> statusLeft ` set allOrders \<union> statusRight ` set allOrders \<longrightarrow>
     '''' \<in> set (getOptionsForKey (uniqueValues allOrders) K_status)"
  using allStatuses_spec[of allOrders] by (simp add: getOptionsForKey_uniqueValues)

text \<open>
  Two orders, one with an empty \<^verbatim>\<open>statusRight\<close>: the status options end with the empty
  string, while the empty \<^verbatim>\<open>lock\<close> of both orders is not an option.
\<close>

theorem status_options_keep_empty_witness:
  "'''' \<in> statusLeft ` set [order10, order_blank] \<union> statusRight ` set [order10, order_blank] \<and>
   getOptionsForKey (uniqueValues [order10, order_blank]) K_status = [''Printing'', ''QC'', ''''] \<and>
   getOptionsForKey (uniqueValues [order10, order_blank]) K_lock = []"
proof -
  have a: "'''' \<in> statusLeft ` set [order10, order_blank] \<union> statusRight ` set [order10, order_blank]"
    by (simp add: order_blank_def)
  from status_options_keep_empty[of "[order10, order_blank]"] a
  have "'''' \<in> set (getOptionsForKey (uniqueValues [order10, order_blank]) K_status)" by blast
  moreover have "getOptionsForKey (uniqueValues [order10, order_blank]) K_status =
      [''Printing'', ''QC'', '''']"
    by (simp add: getOptionsForKey_uniqueValues allStatuses_def new_Set_def Set_add_def
        order10_def order_blank_def)
  moreover have "getOptionsForKey (uniqueValues [order10, order_blank]) K_lock = []"
    by (simp add: getOptionsForKey_uniqueValues getUnique_def new_Set_def Set_add_def
        order10_def order_blank_def)
  ultimately show ?thesis using a by blast
qed

end
